theory Spec2Isabelle
  imports Main
begin

section \<open>Python strings\<close>

text \<open>
  A Python \<open>str\<close> is a sequence of Unicode code points, and \<open>len\<close> counts code points
  (the transcripts are Arabic or English).  A character is its code point, a string a list
  of them.  ASCII literals are written \<open>ascii ''...''\<close>.
\<close>

type_synonym uchar = nat
type_synonym ustr = "uchar list"

definition ascii :: "string \<Rightarrow> ustr" where
  "ascii s = map of_char s"

text \<open>
  \<open>str.isspace\<close>, which is also the set \<open>str.strip()\<close> removes and the class \<open>\s\<close> of \<open>re\<close>
  on a \<open>str\<close> pattern.
\<close>

definition is_space :: "uchar \<Rightarrow> bool" where
  "is_space c \<longleftrightarrow>
     (9 \<le> c \<and> c \<le> 13) \<or> (28 \<le> c \<and> c \<le> 32) \<or> c = 133 \<or> c = 160 \<or> c = 5760 \<or>
     (8192 \<le> c \<and> c \<le> 8202) \<or> c = 8232 \<or> c = 8233 \<or> c = 8239 \<or> c = 8287 \<or> c = 12288"

text \<open>The line boundaries of \<open>str.splitlines\<close>.\<close>

definition is_linebreak :: "uchar \<Rightarrow> bool" where
  "is_linebreak c \<longleftrightarrow>
     (10 \<le> c \<and> c \<le> 13) \<or> (28 \<le> c \<and> c \<le> 30) \<or> c = 133 \<or> c = 8232 \<or> c = 8233"

text \<open>
  The class \<open>\d\<close> of \<open>re\<close> on a \<open>str\<close> pattern: the decimal digits of Unicode (category Nd,
  Unicode 14), as first and last code point of each run.
\<close>

definition digit_ranges :: "(nat \<times> nat) list" where
  "digit_ranges =
    [(48, 57), (1632, 1641), (1776, 1785), (1984, 1993), (2406, 2415), (2534, 2543),
     (2662, 2671), (2790, 2799), (2918, 2927), (3046, 3055), (3174, 3183), (3302, 3311),
     (3430, 3439), (3558, 3567), (3664, 3673), (3792, 3801), (3872, 3881), (4160, 4169),
     (4240, 4249), (6112, 6121), (6160, 6169), (6470, 6479), (6608, 6617), (6784, 6793),
     (6800, 6809), (6992, 7001), (7088, 7097), (7232, 7241), (7248, 7257), (42528, 42537),
     (43216, 43225), (43264, 43273), (43472, 43481), (43504, 43513), (43600, 43609),
     (44016, 44025), (65296, 65305), (66720, 66729), (68912, 68921), (69734, 69743),
     (69872, 69881), (69942, 69951), (70096, 70105), (70384, 70393), (70736, 70745),
     (70864, 70873), (71248, 71257), (71360, 71369), (71472, 71481), (71904, 71913),
     (72016, 72025), (72784, 72793), (73040, 73049), (73120, 73129), (92768, 92777),
     (92864, 92873), (93008, 93017), (120782, 120831), (123200, 123209), (123632, 123641),
     (125264, 125273), (130032, 130041)]"

definition is_digit :: "uchar \<Rightarrow> bool" where
  "is_digit c = list_ex (\<lambda>(a, b). a \<le> c \<and> c \<le> b) digit_ranges"

definition is_ascii_digit :: "uchar \<Rightarrow> bool" where
  "is_ascii_digit c \<longleftrightarrow> 48 \<le> c \<and> c \<le> 57"

definition is_latin :: "uchar \<Rightarrow> bool" where
  \<comment> \<open>\<open>[A-Za-z]\<close>\<close>
  "is_latin c \<longleftrightarrow> (65 \<le> c \<and> c \<le> 90) \<or> (97 \<le> c \<and> c \<le> 122)"

definition is_arabic :: "uchar \<Rightarrow> bool" where
  \<comment> \<open>\<open>[\<dots>U+0621-U+064A]\<close>: the four letters the class also lists lie inside the range\<close>
  "is_arabic c \<longleftrightarrow> 1569 \<le> c \<and> c \<le> 1610"

definition strip_chars :: "(uchar \<Rightarrow> bool) \<Rightarrow> ustr \<Rightarrow> ustr" where
  "strip_chars p s = rev (dropWhile p (rev (dropWhile p s)))"

definition strip :: "ustr \<Rightarrow> ustr" where
  \<comment> \<open>\<open>s.strip()\<close>\<close>
  "strip = strip_chars is_space"

fun join :: "ustr \<Rightarrow> ustr list \<Rightarrow> ustr" where
  \<comment> \<open>\<open>sep.join(xs)\<close>\<close>
  "join sep [] = []"
| "join sep [x] = x"
| "join sep (x # y # ys) = x @ sep @ join sep (y # ys)"

fun splitlines_from :: "ustr \<Rightarrow> ustr \<Rightarrow> ustr list" where
  \<comment> \<open>the first argument is the line read so far\<close>
  "splitlines_from cur [] = (if cur = [] then [] else [cur])"
| "splitlines_from cur (c # cs) =
     (if c = 13 then
        (case cs of
           [] \<Rightarrow> [cur]
         | d # ds \<Rightarrow> if d = 10 then cur # splitlines_from [] ds else cur # splitlines_from [] cs)
      else if is_linebreak c then cur # splitlines_from [] cs
      else splitlines_from (cur @ [c]) cs)"

definition splitlines :: "ustr \<Rightarrow> ustr list" where
  \<comment> \<open>\<open>s.splitlines()\<close>: a CR LF pair is one boundary, and a final boundary opens no line\<close>
  "splitlines s = splitlines_from [] s"

fun is_prefix :: "ustr \<Rightarrow> ustr \<Rightarrow> bool" where
  \<comment> \<open>\<open>s.startswith(p)\<close>, the pattern first\<close>
  "is_prefix [] s = True"
| "is_prefix (p # ps) [] = False"
| "is_prefix (p # ps) (c # cs) = (p = c \<and> is_prefix ps cs)"

fun contains :: "ustr \<Rightarrow> ustr \<Rightarrow> bool" where
  \<comment> \<open>\<open>w in s\<close> on strings, the needle first\<close>
  "contains w [] = (w = [])"
| "contains w (c # cs) = (is_prefix w (c # cs) \<or> contains w cs)"

function str_of_nat :: "nat \<Rightarrow> ustr" where
  \<comment> \<open>the decimal digits of a number\<close>
  "str_of_nat n = (if n < 10 then [48 + n] else str_of_nat (n div 10) @ [48 + n mod 10])"
  by pat_completeness auto
termination
  by (relation "measure (\<lambda>n. n)") auto

declare str_of_nat.simps [simp del]

definition str_of_int :: "int \<Rightarrow> ustr" where
  \<comment> \<open>\<open>str(i)\<close>\<close>
  "str_of_int i = (if i < 0 then 45 # str_of_nat (nat (- i)) else str_of_nat (nat i))"

section \<open>The fragment of \<open>re\<close> the program uses\<close>

text \<open>
  Patterns are data.  The constructors are the forms that occur in the program's patterns:
  one character of a class (a literal, a bracket class, \<open>\\s\<close>, \<open>\\d\<close>, \<open>.\<close>), a greedy
  repetition \<open>{lo,hi}\<close> of such a class (\<open>*\<close>, \<open>+\<close> and the counted forms), sequence,
  alternation, an optional part \<open>(?:r)?\<close>, a capturing group, \<open>^\<close>, \<open>$\<close> and a one-character
  look-behind.  Under \<open>re.IGNORECASE\<close> the class predicates are the case-insensitive ones.

  Matching is backtracking and leftmost: \<open>rx_m r st\<close> lists the states in which \<open>r\<close> can
  end when started in \<open>st\<close>, in the order in which \<open>re\<close> tries them, so the head of the list
  is the match \<open>re\<close> reports.  A state is the character before the position (for \<open>^\<close> and
  the look-behind), the text still to read, and the groups captured so far (the latest
  capture of a group first).
\<close>

datatype rx =
    RChar "uchar \<Rightarrow> bool"
  | RRep "uchar \<Rightarrow> bool" nat "nat option"
  | RSeq rx rx
  | RAlt rx rx
  | ROpt rx
  | RGroup nat rx
  | RBol
  | REol
  | RBehind "uchar \<Rightarrow> bool"

type_synonym mstate = "uchar option \<times> ustr \<times> (nat \<times> ustr) list"

fun rep_run :: "(uchar \<Rightarrow> bool) \<Rightarrow> nat \<Rightarrow> nat option \<Rightarrow> mstate \<Rightarrow> mstate list" where
  \<comment> \<open>greedy: one more character first, stopping here second\<close>
  "rep_run p lo hi (pv, [], g) = (if lo = 0 then [(pv, [], g)] else [])"
| "rep_run p lo hi (pv, c # cs, g) =
     (if p c \<and> hi \<noteq> Some 0
      then rep_run p (lo - 1) (map_option (\<lambda>h. h - 1) hi) (Some c, cs, g) else [])
     @ (if lo = 0 then [(pv, c # cs, g)] else [])"

fun rx_m :: "rx \<Rightarrow> mstate \<Rightarrow> mstate list" where
  "rx_m (RChar p) (pv, rest, g) =
     (case rest of [] \<Rightarrow> [] | c # cs \<Rightarrow> if p c then [(Some c, cs, g)] else [])"
| "rx_m (RRep p lo hi) st = rep_run p lo hi st"
| "rx_m (RSeq a b) st = concat (map (rx_m b) (rx_m a st))"
| "rx_m (RAlt a b) st = rx_m a st @ rx_m b st"
| "rx_m (ROpt a) st = rx_m a st @ [st]"
| "rx_m (RGroup i a) (pv, rest, g) =
     map (\<lambda>(pv', rest', g'). (pv', rest', (i, take (length rest - length rest') rest) # g'))
       (rx_m a (pv, rest, g))"
| "rx_m RBol (pv, rest, g) = (if pv = None then [(pv, rest, g)] else [])"
| "rx_m REol (pv, rest, g) = (if rest = [] \<or> rest = [10] then [(pv, rest, g)] else [])"
| "rx_m (RBehind p) (pv, rest, g) =
     (case pv of None \<Rightarrow> [] | Some c \<Rightarrow> if p c then [(pv, rest, g)] else [])"

fun rseq :: "rx list \<Rightarrow> rx" where
  \<comment> \<open>a pattern written as the sequence of its parts\<close>
  "rseq [] = ROpt (RChar (\<lambda>c. False))"
| "rseq [r] = r"
| "rseq (r # rs) = RSeq r (rseq rs)"

definition rlit :: "ustr \<Rightarrow> rx" where
  \<comment> \<open>a literal word, case-sensitive\<close>
  "rlit w = rseq (map (\<lambda>x. RChar (\<lambda>c. c = x)) w)"

definition re_match :: "rx \<Rightarrow> ustr \<Rightarrow> mstate option" where
  \<comment> \<open>\<open>re.match(p, s)\<close>: the match at the start of \<open>s\<close>, as its final state\<close>
  "re_match r s = (case rx_m r (None, s, []) of [] \<Rightarrow> None | st # _ \<Rightarrow> Some st)"

definition group :: "mstate \<Rightarrow> nat \<Rightarrow> ustr option" where
  \<comment> \<open>\<open>m.group(i)\<close> for \<open>i > 0\<close>; \<open>None\<close> when the group took no part in the match\<close>
  "group st i = map_of (snd (snd st)) i"

fun re_search_from :: "rx \<Rightarrow> uchar option \<Rightarrow> ustr \<Rightarrow> (ustr \<times> mstate) option" where
  \<comment> \<open>the leftmost match: the text from its first character on, and its final state\<close>
  "re_search_from r pv [] =
     (case rx_m r (pv, [], []) of [] \<Rightarrow> None | st # _ \<Rightarrow> Some ([], st))"
| "re_search_from r pv (c # cs) =
     (case rx_m r (pv, c # cs, []) of
        [] \<Rightarrow> re_search_from r (Some c) cs
      | st # _ \<Rightarrow> Some (c # cs, st))"

definition re_search :: "rx \<Rightarrow> ustr \<Rightarrow> ustr option" where
  \<comment> \<open>\<open>re.search(p, s)\<close>, as \<open>m.group(0)\<close>\<close>
  "re_search r s =
     (case re_search_from r None s of
        None \<Rightarrow> None
      | Some (start, (_, rest, _)) \<Rightarrow> Some (take (length start - length rest) start))"

text \<open>
  \<open>re_scan\<close> is the iteration behind \<open>re.split\<close>, \<open>re.findall\<close> and \<open>re.sub\<close>: the successive
  non-overlapping matches, each with the text between it and the match before, and the
  text after the last one.  No pattern of the program matches the empty string; a match
  that reads nothing is passed over.
\<close>

fun re_scan :: "rx \<Rightarrow> uchar option \<Rightarrow> ustr \<Rightarrow> ustr \<Rightarrow> (ustr \<times> ustr \<times> (nat \<times> ustr) list) list \<times> ustr" where
  "re_scan r pv acc [] = ([], acc)"
| "re_scan r pv acc (c # cs) =
     (case rx_m r (pv, c # cs, []) of
        [] \<Rightarrow> re_scan r (Some c) (acc @ [c]) cs
      | (pv', rest, g) # _ \<Rightarrow>
          if length rest < length (c # cs)
          then (case re_scan r pv' [] rest of
                  (ms, after) \<Rightarrow> ((acc, take (length (c # cs) - length rest) (c # cs), g) # ms, after))
          else re_scan r (Some c) (acc @ [c]) cs)"

definition re_split :: "rx \<Rightarrow> ustr \<Rightarrow> ustr list" where
  \<comment> \<open>\<open>re.split(p, s)\<close> for a pattern without groups\<close>
  "re_split r s = (case re_scan r None [] s of (ms, after) \<Rightarrow> map fst ms @ [after])"

definition re_split_group :: "rx \<Rightarrow> ustr \<Rightarrow> ustr list" where
  \<comment> \<open>\<open>re.split(p, s)\<close> for a pattern that is one group: the separators are kept\<close>
  "re_split_group r s =
     (case re_scan r None [] s of
        (ms, after) \<Rightarrow> concat (map (\<lambda>(before, m, g). [before, m]) ms) @ [after])"

definition re_findall :: "rx \<Rightarrow> ustr \<Rightarrow> ustr list" where
  \<comment> \<open>\<open>re.findall(p, s)\<close> for a pattern without groups\<close>
  "re_findall r s = map (\<lambda>(before, m, g). m) (fst (re_scan r None [] s))"

definition re_sub :: "rx \<Rightarrow> ustr \<Rightarrow> ustr \<Rightarrow> ustr" where
  \<comment> \<open>\<open>re.sub(p, repl, s)\<close> for a replacement without group references\<close>
  "re_sub r repl s =
     (case re_scan r None [] s of
        (ms, after) \<Rightarrow> concat (map (\<lambda>(before, m, g). before @ repl) ms) @ after)"

section \<open>JSON values and \<open>json.loads\<close>\<close>

text \<open>
  What \<open>json.loads\<close> returns.  A float is kept as the decimal it was written as (sign,
  digits, power of ten), or as one of the constants \<open>NaN\<close>, \<open>Infinity\<close>, \<open>-Infinity\<close> the
  decoder accepts.  An object keeps its members in the order read; a later member of the
  same name overrides an earlier one, as in the \<open>dict\<close>.  Python's \<open>None\<close> is \<open>JNull\<close>.
\<close>

datatype pyfloat = FNaN | FInf bool | FDec bool nat int

datatype json =
    JNull
  | JBool bool
  | JInt int
  | JFloat pyfloat
  | JStr ustr
  | JList "json list"
  | JDict "(ustr \<times> json) list"

definition float_nonzero :: "pyfloat \<Rightarrow> bool" where
  \<comment> \<open>whether the nearest double is not zero: the decimal exceeds half the least subnormal\<close>
  "float_nonzero f =
     (case f of
        FNaN \<Rightarrow> True
      | FInf _ \<Rightarrow> True
      | FDec _ m e \<Rightarrow> m \<noteq> 0 \<and> (0 \<le> e \<or> 10 ^ nat (- e) < m * 2 ^ 1075))"

fun truthy :: "json \<Rightarrow> bool" where
  \<comment> \<open>\<open>bool(v)\<close>\<close>
  "truthy JNull = False"
| "truthy (JBool b) = b"
| "truthy (JInt i) = (i \<noteq> 0)"
| "truthy (JFloat f) = float_nonzero f"
| "truthy (JStr s) = (s \<noteq> [])"
| "truthy (JList xs) = (xs \<noteq> [])"
| "truthy (JDict ps) = (ps \<noteq> [])"

definition py_or :: "json \<Rightarrow> json \<Rightarrow> json" where
  \<comment> \<open>\<open>a or b\<close>\<close>
  "py_or a b = (if truthy a then a else b)"

definition is_json_ws :: "uchar \<Rightarrow> bool" where
  "is_json_ws c \<longleftrightarrow> c = 32 \<or> c = 9 \<or> c = 10 \<or> c = 13"

definition skip_ws :: "ustr \<Rightarrow> ustr" where
  "skip_ws = dropWhile is_json_ws"

definition hex_val :: "uchar \<Rightarrow> nat option" where
  "hex_val c =
     (if 48 \<le> c \<and> c \<le> 57 then Some (c - 48)
      else if 97 \<le> c \<and> c \<le> 102 then Some (c - 87)
      else if 65 \<le> c \<and> c \<le> 70 then Some (c - 55)
      else None)"

fun hex4 :: "ustr \<Rightarrow> (nat \<times> ustr) option" where
  \<comment> \<open>the four hexadecimal digits of a \<open>\uXXXX\<close> escape\<close>
  "hex4 (a # b # c # d # r) =
     (case (hex_val a, hex_val b, hex_val c, hex_val d) of
        (Some x, Some y, Some z, Some w) \<Rightarrow> Some (((x * 16 + y) * 16 + z) * 16 + w, r)
      | _ \<Rightarrow> None)"
| "hex4 _ = None"

definition unescape :: "uchar \<Rightarrow> uchar option" where
  \<comment> \<open>the character a backslash escape stands for (other than \<open>\u\<close>)\<close>
  "unescape e =
     (if e = 34 \<or> e = 92 \<or> e = 47 then Some e
      else if e = 98 then Some 8
      else if e = 102 then Some 12
      else if e = 110 then Some 10
      else if e = 114 then Some 13
      else if e = 116 then Some 9
      else None)"

lemma hex4_shorter: "hex4 s = Some (n, r) \<Longrightarrow> length r < length s"
  by (induction s rule: hex4.induct) (auto split: option.splits)

function scan_string :: "ustr \<Rightarrow> (ustr \<times> ustr) option" where
  \<comment> \<open>a string literal from after its opening quote: its value and the text after the
      closing quote.  A raw control character ends the parse, as does an unknown escape;
      a high surrogate escape followed by a low surrogate escape is one character.\<close>
  "scan_string [] = None"
| "scan_string (c # cs) =
     (if c = 34 then Some ([], cs)
      else if c = 92 then
        (case cs of
           [] \<Rightarrow> None
         | e # es \<Rightarrow>
             if e = 117 then
               (case hex4 es of
                  None \<Rightarrow> None
                | Some (u, r) \<Rightarrow>
                    (case (if 55296 \<le> u \<and> u \<le> 56319 then
                             (case r of
                                b # v # r' \<Rightarrow>
                                  if b = 92 \<and> v = 117 then
                                    (case hex4 r' of
                                       None \<Rightarrow> None
                                     | Some (u2, r'') \<Rightarrow>
                                         if 56320 \<le> u2 \<and> u2 \<le> 57343
                                         then Some (65536 + (u - 55296) * 1024 + (u2 - 56320), r'')
                                         else Some (u, r))
                                  else Some (u, r)
                              | _ \<Rightarrow> Some (u, r))
                           else Some (u, r)) of
                       None \<Rightarrow> None
                     | Some (x, q) \<Rightarrow>
                         if length q < length (c # cs)
                         then map_option (\<lambda>(s, t). (x # s, t)) (scan_string q) else None))
             else
               (case unescape e of
                  None \<Rightarrow> None
                | Some x \<Rightarrow> map_option (\<lambda>(s, t). (x # s, t)) (scan_string es)))
      else if c \<le> 31 then None
      else map_option (\<lambda>(s, t). (c # s, t)) (scan_string cs))"
  by pat_completeness auto
termination
  by (relation "measure length") auto

definition digits_val :: "ustr \<Rightarrow> nat" where
  "digits_val ds = foldl (\<lambda>a d. 10 * a + (d - 48)) 0 ds"

definition int_max_str_digits :: nat where
  \<comment> \<open>CPython's default limit on the digits of an integer literal (\<open>ValueError\<close> beyond it)\<close>
  "int_max_str_digits = 4300"

definition scan_number :: "ustr \<Rightarrow> (json \<times> ustr) option" where
  \<comment> \<open>\<open>-?(0|[1-9][0-9]*)(\.[0-9]+)?([eE][-+]?[0-9]+)?\<close>: an integer when it has neither
      fraction nor exponent, a float otherwise\<close>
  "scan_number s =
     (let neg = (s \<noteq> [] \<and> hd s = 45);
          s1 = (if neg then tl s else s);
          ip = (case s1 of [] \<Rightarrow> [] | c # cs \<Rightarrow> if c = 48 then [c] else takeWhile is_ascii_digit s1);
          s2 = drop (length ip) s1;
          fp = (case s2 of
                  c # cs \<Rightarrow> if c = 46 \<and> cs \<noteq> [] \<and> is_ascii_digit (hd cs)
                            then takeWhile is_ascii_digit cs else []
                | [] \<Rightarrow> []);
          s3 = (if fp = [] then s2 else drop (Suc (length fp)) s2);
          ex = (case s3 of
                  c # cs \<Rightarrow>
                    if c = 101 \<or> c = 69 then
                      (let sg = (cs \<noteq> [] \<and> (hd cs = 45 \<or> hd cs = 43));
                           ds = takeWhile is_ascii_digit (if sg then tl cs else cs)
                       in if ds = [] then None
                          else Some (cs \<noteq> [] \<and> hd cs = 45, ds, drop (length ds) (if sg then tl cs else cs)))
                    else None
                | [] \<Rightarrow> None)
      in if ip = [] then None
         else (case ex of
                 Some (eneg, ds, s4) \<Rightarrow>
                   Some (JFloat (FDec neg (digits_val (ip @ fp))
                           ((if eneg then - int (digits_val ds) else int (digits_val ds)) - int (length fp))), s4)
               | None \<Rightarrow>
                   if fp \<noteq> [] then Some (JFloat (FDec neg (digits_val (ip @ fp)) (- int (length fp))), s3)
                   else if int_max_str_digits < length ip then None
                   else Some (JInt (if neg then - int (digits_val ip) else int (digits_val ip)), s3)))"

text \<open>
  The decoder proper: \<open>parse_value\<close> reads one value at the head of the text,
  \<open>parse_elems\<close> the elements of an array from its first element to the closing bracket,
  \<open>parse_members\<close> the members of an object from its first key to the closing brace.  Each
  returns what it read and the text after it, or \<open>None\<close> where \<open>json\<close> raises.
\<close>

function parse_value :: "ustr \<Rightarrow> (json \<times> ustr) option"
  and parse_elems :: "ustr \<Rightarrow> (json list \<times> ustr) option"
  and parse_members :: "ustr \<Rightarrow> ((ustr \<times> json) list \<times> ustr) option"
where
  "parse_value [] = None"
| "parse_value (c # cs) =
     (if c = 34 then map_option (\<lambda>(v, r). (JStr v, r)) (scan_string cs)
      else if c = 123 then
        (case skip_ws cs of
           [] \<Rightarrow> None
         | d # ds \<Rightarrow>
             if d = 125 then Some (JDict [], ds)
             else map_option (\<lambda>(ps, r). (JDict ps, r)) (parse_members (d # ds)))
      else if c = 91 then
        (case skip_ws cs of
           [] \<Rightarrow> None
         | d # ds \<Rightarrow>
             if d = 93 then Some (JList [], ds)
             else map_option (\<lambda>(vs, r). (JList vs, r)) (parse_elems (d # ds)))
      else if is_prefix (ascii ''null'') (c # cs) then Some (JNull, drop 4 (c # cs))
      else if is_prefix (ascii ''true'') (c # cs) then Some (JBool True, drop 4 (c # cs))
      else if is_prefix (ascii ''false'') (c # cs) then Some (JBool False, drop 5 (c # cs))
      else if is_prefix (ascii ''NaN'') (c # cs) then Some (JFloat FNaN, drop 3 (c # cs))
      else if is_prefix (ascii ''Infinity'') (c # cs) then Some (JFloat (FInf False), drop 8 (c # cs))
      else if is_prefix (ascii ''-Infinity'') (c # cs) then Some (JFloat (FInf True), drop 9 (c # cs))
      else scan_number (c # cs))"
| "parse_elems s =
     (case parse_value s of
        None \<Rightarrow> None
      | Some (v, r) \<Rightarrow>
          if length r < length s then
            (case skip_ws r of
               [] \<Rightarrow> None
             | d # ds \<Rightarrow>
                 if d = 93 then Some ([v], ds)
                 else if d = 44 then
                   map_option (\<lambda>(vs, r'). (v # vs, r')) (parse_elems (skip_ws ds))
                 else None)
          else None)"
| "parse_members s =
     (case s of
        [] \<Rightarrow> None
      | q # qs \<Rightarrow>
          if q = 34 then
            (case scan_string qs of
               None \<Rightarrow> None
             | Some (k, r) \<Rightarrow>
                 (case skip_ws r of
                    [] \<Rightarrow> None
                  | d # ds \<Rightarrow>
                      if d = 58 \<and> length ds < length s then
                        (case parse_value (skip_ws ds) of
                           None \<Rightarrow> None
                         | Some (v, r') \<Rightarrow>
                             if length r' < length s then
                               (case skip_ws r' of
                                  [] \<Rightarrow> None
                                | e # es \<Rightarrow>
                                    if e = 125 then Some ([(k, v)], es)
                                    else if e = 44 then
                                      map_option (\<lambda>(ps, r''). ((k, v) # ps, r''))
                                        (parse_members (skip_ws es))
                                    else None)
                             else None)
                      else None))
          else None)"
  by pat_completeness auto

lemma length_skip_ws: "length (skip_ws s) \<le> length s"
  by (simp add: skip_ws_def length_dropWhile_le)

lemma skip_ws_Cons_shorter: "skip_ws r = d # ds \<Longrightarrow> length ds < length r"
  using length_skip_ws [of r] by simp

termination parse_value
proof (relation "measure (\<lambda>x. case x of
    Inl s \<Rightarrow> 2 * length s
  | Inr (Inl s) \<Rightarrow> 2 * length s + 1
  | Inr (Inr s) \<Rightarrow> 2 * length s + 1)", goal_cases)
  case 1
  then show ?case by simp
next
  case (2 c cs x21 x22)
  then show ?case using skip_ws_Cons_shorter [of cs x21 x22] by simp
next
  case (3 c cs x21 x22)
  then show ?case using skip_ws_Cons_shorter [of cs x21 x22] by simp
next
  case (4 s)
  then show ?case by simp
next
  case (5 s x2 x1 x2a x21 x22)
  then show ?case
    using skip_ws_Cons_shorter [of x2a x21 x22] length_skip_ws [of x22] by simp
next
  case (6 s x21 x22 x2 x1 x2a x21a x22a)
  then show ?case using length_skip_ws [of x22a] by simp
next
  case (7 s x21 x22 x2 x1 x2a x21a x22a x2b x1a x2c x21b x22b)
  then show ?case
    using skip_ws_Cons_shorter [of x2c x21b x22b] length_skip_ws [of x22b] by simp
qed

declare parse_elems.simps [simp del] parse_members.simps [simp del]

definition json_loads :: "ustr \<Rightarrow> json option" where
  \<comment> \<open>\<open>json.loads(s)\<close>; \<open>None\<close> where it raises.  White space around the value is the four
      characters of JSON; anything else after the value is an error, as is a leading
      byte order mark.  Without the nesting limit of the interpreter.\<close>
  "json_loads s =
     (case parse_value (skip_ws s) of
        None \<Rightarrow> None
      | Some (v, r) \<Rightarrow> if skip_ws r = [] then Some v else None)"

section \<open>What the model leaves open\<close>

text \<open>
  Two functions of the Python runtime are parameters of the model, so that every theorem
  holds for whatever they compute: \<open>str.lower\<close> (the case mapping of Unicode, with its
  context rules) and \<open>str\<close> of a float, a list or a dict (their \<open>repr\<close>).

  One limit of the runtime is not modelled: \<open>json.loads\<close> raises \<open>RecursionError\<close> on a
  text whose lists and objects nest deeper than the interpreter's recursion limit allows
  (about a thousand levels in CPython), where \<open>json_loads\<close> below still returns the value.
  The depth at which that happens depends on the interpreter and on the stack in use at the
  call.  \<open>_parse_json\<close> catches the exception as it catches every other, so for such a
  reply the code goes on as for one that does not parse while the model goes on with the
  parsed value; the results below speak of replies through the value of \<open>json_loads\<close> or
  \<open>parse_json\<close>, and the replies of the examples nest at most two levels.
\<close>

record pylib =
  str_lower :: "ustr \<Rightarrow> ustr"
  repr_of :: "json \<Rightarrow> ustr"

section \<open>The rule-based analyser (\<open>core/summarizer.py\<close>)\<close>

subsection \<open>Tables\<close>

text \<open>The two stop-word sets are only ever asked for membership.\<close>

definition AR_STOP :: "ustr list" where
  "AR_STOP =
    [[1605, 1606], [1573, 1604, 1609], [1593, 1604, 1609], [1593, 1606], [1601, 1610],
     [1605, 1593], [1607, 1584, 1575], [1607, 1584, 1607], [1584, 1604, 1603],
     [1578, 1604, 1603], [1607, 1606, 1575, 1603], [1607, 1606, 1575], [1607, 1608],
     [1607, 1610], [1607, 1605], [1607, 1606], [1571, 1606, 1575], [1606, 1581, 1606],
     [1575, 1606, 1578], [1571, 1606, 1578], [1571, 1606, 1578, 1616],
     [1571, 1606, 1578, 1605], [1571, 1606, 1578, 1606], [1603, 1575, 1606],
     [1603, 1575, 1606, 1578], [1610, 1603, 1608, 1606], [1578, 1603, 1608, 1606],
     [1578, 1605], [1602, 1583], [1579, 1605], [1604, 1603, 1606], [1604, 1571, 1606],
     [1573, 1584, 1575], [1573, 1606], [1608], [1571, 1608], [1603, 1605, 1575],
     [1571, 1610], [1571, 1610, 1590, 1575, 1611], [1575, 1610, 1590, 1575],
     [1581, 1578, 1609], [1603, 1604], [1576, 1593, 1590], [1594, 1610, 1585],
     [1576, 1583, 1608, 1606], [1576, 1593, 1583], [1602, 1576, 1604], [1576, 1610, 1606],
     [1590, 1605, 1606], [1581, 1608, 1604], [1593, 1606, 1583], [1605, 1579, 1604],
     [1605, 1579, 1604, 1575, 1611], [1605, 1579, 1604, 1575]]"

definition EN_STOP :: "ustr list" where
  "EN_STOP =
    [ascii ''the'', ascii ''a'', ascii ''an'', ascii ''to'', ascii ''of'', ascii ''in'',
     ascii ''on'', ascii ''at'', ascii ''for'', ascii ''with'', ascii ''and'',
     ascii ''or'', ascii ''is'', ascii ''are'', ascii ''was'', ascii ''were'',
     ascii ''be'', ascii ''been'', ascii ''it'', ascii ''this'', ascii ''that'',
     ascii ''these'', ascii ''those'', ascii ''as'', ascii ''by'', ascii ''from'']"

definition DECISION_KWS :: "ustr list" where
  "DECISION_KWS =
    [[1578, 1605, 32, 1575, 1604, 1575, 1578, 1601, 1575, 1602],
     [1575, 1578, 1601, 1602, 1606, 1575],
     [1578, 1605, 32, 1575, 1593, 1578, 1605, 1575, 1583], [1602, 1585, 1585, 1606, 1575],
     [1578, 1605, 32, 1575, 1604, 1602, 1585, 1575, 1585], [1602, 1585, 1575, 1585],
     [1575, 1593, 1578, 1605, 1575, 1583], ascii ''approve'', ascii ''approved'',
     ascii ''we decided'', ascii ''decision'', ascii ''agreed'']"

definition TASK_KWS :: "ustr list" where
  "TASK_KWS =
    [[1605, 1591, 1604, 1608, 1576], [1604, 1575, 1586, 1605], [1610, 1585, 1580, 1609],
     [1610, 1585, 1580, 1609, 32, 1605, 1606], [1578, 1603, 1604, 1610, 1601],
     [1605, 1587, 1572, 1608, 1604], [1593, 1604, 1609], [1585, 1581], [1587, 1608, 1601],
     [1587, 1606, 1602, 1608, 1605], ascii ''todo'', ascii ''to do'', ascii ''action'',
     ascii ''task'', ascii ''need to'', ascii ''please'']"

definition TOPIC_HINTS :: "(ustr \<times> ustr list) list" where
  "TOPIC_HINTS =
    [([1575, 1604, 1605, 1602, 1583, 1605, 1577, 32, 1608, 1575, 1604, 1587, 1610, 1575, 1602],
      [[1575, 1601, 1578, 1578, 1575, 1581], [1605, 1602, 1583, 1605, 1577],
       [1587, 1610, 1575, 1602], [1607, 1583, 1601], [1575, 1604, 1594, 1585, 1590],
       ascii ''introduction'', ascii ''context'', ascii ''goal'', ascii ''purpose'']),
     ([1606, 1602, 1575, 1591, 32, 1578, 1602, 1606, 1610, 1577],
      [[1606, 1592, 1575, 1605], [1582, 1575, 1583, 1605], [1587, 1610, 1585, 1601, 1585],
       [1602, 1575, 1593, 1583, 1577], [1576, 1610, 1575, 1606, 1575, 1578], ascii ''API'',
       [1606, 1605, 1608, 1584, 1580], ascii ''model'', ascii ''pipeline'',
       ascii ''deployment'']),
     ([1575, 1604, 1593, 1605, 1604, 32, 1608, 1575, 1604, 1582, 1591, 1577],
      [[1582, 1591, 1577], [1580, 1583, 1608, 1604], ascii ''deadline'',
       [1605, 1608, 1593, 1583], [1605, 1585, 1581, 1604, 1577],
       [1578, 1587, 1604, 1610, 1605], ascii ''next'', ascii ''plan'', ascii ''timeline'']),
     ([1605, 1588, 1575, 1603, 1604, 32, 1608, 1605, 1582, 1575, 1591, 1585],
      [[1605, 1588, 1603, 1604, 1577], [1582, 1591, 1571], [1601, 1588, 1604],
       [1582, 1591, 1585], ascii ''risk'', ascii ''issue'', ascii ''error'',
       ascii ''blocked'']),
     ([1575, 1604, 1606, 1578, 1575, 1574, 1580, 32, 1608, 1575, 1604, 1578, 1608, 1589, 1610, 1575, 1578],
      [[1606, 1578, 1610, 1580, 1577], [1575, 1587, 1578, 1606, 1578, 1575, 1580],
       [1578, 1608, 1589, 1610, 1577], ascii ''recommendation'', ascii ''outcome'',
       ascii ''result''])]"

subsection \<open>Dictionaries and counters\<close>

text \<open>
  A \<open>dict\<close> keeps its keys in the order of first insertion, and the program iterates over
  its dictionaries, so they are association lists with distinct keys.
\<close>

fun dict_append :: "('k \<times> 'v list) list \<Rightarrow> 'k \<Rightarrow> 'v \<Rightarrow> ('k \<times> 'v list) list" where
  \<comment> \<open>\<open>d[k].append(v)\<close> on a \<open>defaultdict(list)\<close>\<close>
  "dict_append [] k v = [(k, [v])]"
| "dict_append ((k', vs) # d) k v =
     (if k' = k then (k', vs @ [v]) # d else (k', vs) # dict_append d k v)"

definition utterances :: "(ustr \<times> ustr list) list \<Rightarrow> ustr \<Rightarrow> ustr list" where
  \<comment> \<open>what a speaker has said so far: \<open>speaker_map[sp]\<close>, empty for a new speaker\<close>
  "utterances m sp = (case map_of m sp of None \<Rightarrow> [] | Some l \<Rightarrow> l)"

fun dict_set :: "('k \<times> 'v) list \<Rightarrow> 'k \<Rightarrow> 'v \<Rightarrow> ('k \<times> 'v) list" where
  \<comment> \<open>\<open>d[k] = v\<close>\<close>
  "dict_set [] k v = [(k, v)]"
| "dict_set ((k', v') # d) k v =
     (if k' = k then (k', v) # d else (k', v') # dict_set d k v)"

fun counter_add :: "(ustr \<times> nat) list \<Rightarrow> ustr \<Rightarrow> (ustr \<times> nat) list" where
  "counter_add [] w = [(w, 1)]"
| "counter_add ((k, n) # c) w =
     (if k = w then (k, n + 1) # c else (k, n) # counter_add c w)"

definition counter_update :: "(ustr \<times> nat) list \<Rightarrow> ustr list \<Rightarrow> (ustr \<times> nat) list" where
  \<comment> \<open>\<open>c.update(words)\<close>\<close>
  "counter_update c ws = foldl counter_add c ws"

definition most_common :: "nat \<Rightarrow> (ustr \<times> nat) list \<Rightarrow> (ustr \<times> nat) list" where
  \<comment> \<open>\<open>c.most_common(k)\<close>: by falling count, equal counts in the order first met\<close>
  "most_common k c = take k (sort_key (\<lambda>(w, n). - int n) c)"

subsection \<open>Sentences, tokens, keywords\<close>

definition ws_run :: rx where
  \<comment> \<open>\<open>\s+\<close>\<close>
  "ws_run = RRep is_space 1 None"

definition is_sentence_end :: "uchar \<Rightarrow> bool" where
  \<comment> \<open>\<open>[\.!\?\<dots>\n]\<close> with the Arabic question mark U+061F\<close>
  "is_sentence_end c \<longleftrightarrow> c = 46 \<or> c = 33 \<or> c = 63 \<or> c = 1567 \<or> c = 10"

definition split_sentences :: "ustr \<Rightarrow> ustr list" where
  \<comment> \<open>\<open>_split_sentences\<close>; \<open>(text or "")\<close> is \<open>text\<close> for a \<open>str\<close>\<close>
  "split_sentences txt =
     (let t = re_sub ws_run (ascii '' '') (strip txt)
      in if t = [] then []
         else filter (\<lambda>p. p \<noteq> []) (map strip (re_split (RRep is_sentence_end 1 None) t)))"

definition word_pat :: rx where
  \<comment> \<open>\<open>[A-Za-z]+|[\<dots>]+\<close>, the second class the Arabic letters\<close>
  "word_pat = RAlt (RRep is_latin 1 None) (RRep is_arabic 1 None)"

definition tokenize :: "pylib \<Rightarrow> ustr \<Rightarrow> ustr list" where
  \<comment> \<open>\<open>_tokenize\<close>\<close>
  "tokenize L txt =
     filter (\<lambda>t. \<not> length t \<le> 2 \<and> \<not> (t \<in> set AR_STOP \<or> t \<in> set EN_STOP))
       (re_findall word_pat (str_lower L txt))"

definition top_keywords :: "pylib \<Rightarrow> ustr list \<Rightarrow> nat \<Rightarrow> ustr list" where
  \<comment> \<open>\<open>_top_keywords\<close>\<close>
  "top_keywords L sentences k =
     map fst (most_common k (foldl (\<lambda>c s. counter_update c (tokenize L s)) [] sentences))"

subsection \<open>Decisions, tasks, numbers and dates\<close>

definition any_kw :: "pylib \<Rightarrow> ustr list \<Rightarrow> ustr \<Rightarrow> bool" where
  \<comment> \<open>\<open>any(k.lower() in s2 for k in kws)\<close>\<close>
  "any_kw L kws s2 = list_ex (\<lambda>k. contains (str_lower L k) s2) kws"

definition detect_decisions :: "pylib \<Rightarrow> ustr list \<Rightarrow> ustr list" where
  \<comment> \<open>\<open>_detect_decisions\<close>\<close>
  "detect_decisions L sentences =
     take 12 (map strip (filter (\<lambda>s. any_kw L DECISION_KWS (str_lower L s)) sentences))"

definition detect_tasks :: "pylib \<Rightarrow> ustr list \<Rightarrow> ustr list" where
  \<comment> \<open>\<open>_detect_tasks\<close>\<close>
  "detect_tasks L sentences =
     take 15 (map strip (filter (\<lambda>s. any_kw L TASK_KWS (str_lower L s)) sentences))"

definition is_date_sep :: "uchar \<Rightarrow> bool" where
  \<comment> \<open>\<open>[\/\-\.\:]\<close>\<close>
  "is_date_sep c \<longleftrightarrow> c = 47 \<or> c = 45 \<or> c = 46 \<or> c = 58"

definition number_pat :: rx where
  \<comment> \<open>\<open>(\d{1,4}[\/\-\.\:]\d{1,2}[\/\-\.\:]\d{1,4})|(\d{1,2}\s*(?:am|pm))|(\d+(?:\.\d+)?)\<close>\<close>
  "number_pat =
     RAlt (RGroup 1 (rseq [RRep is_digit 1 (Some 4), RChar is_date_sep, RRep is_digit 1 (Some 2),
                           RChar is_date_sep, RRep is_digit 1 (Some 4)]))
      (RAlt (RGroup 2 (rseq [RRep is_digit 1 (Some 2), RRep is_space 0 None,
                             RAlt (rlit (ascii ''am'')) (rlit (ascii ''pm''))]))
            (RGroup 3 (rseq [RRep is_digit 1 None,
                             ROpt (RSeq (RChar (\<lambda>c. c = 46)) (RRep is_digit 1 None))])))"

definition extract_numbers_dates :: "ustr list \<Rightarrow> ustr list" where
  \<comment> \<open>\<open>_extract_numbers_dates\<close>\<close>
  "extract_numbers_dates sentences =
     take 12 (map strip (filter (\<lambda>s. re_search number_pat s \<noteq> None) sentences))"

subsection \<open>Topics\<close>

definition topic_of :: "pylib \<Rightarrow> ustr \<Rightarrow> ustr option" where
  \<comment> \<open>the first topic of the table one of whose hints the lowered sentence contains\<close>
  "topic_of L s2 = map_option fst (find (\<lambda>(topic, hints). any_kw L hints s2) TOPIC_HINTS)"

definition hint_step ::
  "pylib \<Rightarrow> (ustr \<times> ustr list) list \<times> ustr list \<Rightarrow> ustr \<Rightarrow> (ustr \<times> ustr list) list \<times> ustr list" where
  \<comment> \<open>one turn of the first loop: the groups and the unmatched sentences\<close>
  "hint_step L st s =
     (case st of (groups, other) \<Rightarrow>
        (case topic_of L (str_lower L s) of
           Some topic \<Rightarrow> (dict_append groups topic (strip s), other)
         | None \<Rightarrow> (groups, other @ [strip s])))"

definition dyn_prefix :: ustr where
  \<comment> \<open>the label prefix of a derived topic, Arabic for "topic: "\<close>
  "dyn_prefix = [1605, 1581, 1608, 1585, 58, 32]"

definition dyn_other :: ustr where
  \<comment> \<open>the label of the catch-all derived topic, Arabic for "other topics"\<close>
  "dyn_other = [1605, 1581, 1575, 1608, 1585, 32, 1571, 1582, 1585, 1609]"

definition dyn_step :: "pylib \<Rightarrow> ustr list \<Rightarrow> (ustr \<times> ustr list) list \<Rightarrow> ustr \<Rightarrow> (ustr \<times> ustr list) list" where
  \<comment> \<open>one turn of the second loop, over the unmatched sentences\<close>
  "dyn_step L kw dynamic s =
     (case find (\<lambda>w. contains w (str_lower L s)) kw of
        Some key \<Rightarrow>
          if key \<noteq> [] then dict_append dynamic (dyn_prefix @ key) (strip s)
          else dict_append dynamic dyn_other (strip s)
      | None \<Rightarrow> dict_append dynamic dyn_other (strip s))"

definition group_by_topics :: "pylib \<Rightarrow> ustr list \<Rightarrow> (ustr \<times> ustr list) list" where
  \<comment> \<open>\<open>_group_by_topics\<close>\<close>
  "group_by_topics L sentences =
     (case foldl (hint_step L) (map (\<lambda>(k, hints). (k, [])) TOPIC_HINTS, []) sentences of
        (groups, other) \<Rightarrow>
          (let kw = (if other \<noteq> [] then top_keywords L other 8 else []);
               groups' =
                 (if other \<noteq> [] \<and> kw \<noteq> [] then
                    foldl (\<lambda>g (k2, lst). dict_set g k2 lst) groups
                      (take 4 (sort_key (\<lambda>(k2, lst). - int (length lst))
                         (foldl (dyn_step L kw) [] other)))
                  else groups)
           in map (\<lambda>(k, lst). (k, take 6 lst)) (filter (\<lambda>(k, lst). lst \<noteq> []) groups')))"

subsection \<open>Speakers\<close>

definition ci_eq :: "uchar \<Rightarrow> uchar \<Rightarrow> bool" where
  \<comment> \<open>a literal letter of a pattern under \<open>re.IGNORECASE\<close>: the other case of a Latin
      letter, and the two characters Unicode folds onto \<open>s\<close> and \<open>k\<close> (U+017F, U+212A)\<close>
  "ci_eq x c \<longleftrightarrow>
     c = x \<or> (is_latin x \<and> is_latin c \<and> (c = x + 32 \<or> x = c + 32)) \<or>
     ((x = 83 \<or> x = 115) \<and> c = 383) \<or> ((x = 75 \<or> x = 107) \<and> c = 8490)"

definition rlit_ci :: "ustr \<Rightarrow> rx" where
  "rlit_ci w = rseq (map (\<lambda>x. RChar (ci_eq x)) w)"

definition is_latin_ci :: "uchar \<Rightarrow> bool" where
  \<comment> \<open>\<open>[A-Za-z]\<close> under \<open>re.IGNORECASE\<close>: also U+0130, U+0131, U+017F and U+212A\<close>
  "is_latin_ci c \<longleftrightarrow> is_latin c \<or> c = 304 \<or> c = 305 \<or> c = 383 \<or> c = 8490"

definition is_name_tail :: "(uchar \<Rightarrow> bool) \<Rightarrow> uchar \<Rightarrow> bool" where
  \<comment> \<open>\<open>[\<dots>0-9_\- ]\<close> around a class of letters\<close>
  "is_name_tail letter c \<longleftrightarrow> letter c \<or> is_ascii_digit c \<or> c = 95 \<or> c = 45 \<or> c = 32"

definition is_label_sep :: "uchar \<Rightarrow> bool" where
  \<comment> \<open>\<open>[:\-]\<close>\<close>
  "is_label_sep c \<longleftrightarrow> c = 58 \<or> c = 45"

definition label_pat :: "rx \<Rightarrow> rx" where
  \<comment> \<open>\<open>^\s*(NAME)\s*[:\-]\s*(.+)$\<close> around the pattern of the name\<close>
  "label_pat name =
     rseq [RBol, RRep is_space 0 None, RGroup 1 name, RRep is_space 0 None, RChar is_label_sep,
           RRep is_space 0 None, RGroup 2 (RRep (\<lambda>c. c \<noteq> 10) 1 None), REol]"

definition SPEAKER_PATTERNS :: "rx list" where
  \<comment> \<open>\<open>Speaker\s*\d+\<close>, the same with the Arabic word for "the speaker", a Latin name of
      2 to 26 characters, an Arabic name of 2 to 26 characters; all under \<open>re.IGNORECASE\<close>\<close>
  "SPEAKER_PATTERNS =
     [label_pat (rseq [rlit_ci (ascii ''Speaker''), RRep is_space 0 None, RRep is_digit 1 None]),
      label_pat (rseq [rlit_ci [1575, 1604, 1605, 1578, 1581, 1583, 1579], RRep is_space 0 None,
                       RRep is_digit 1 None]),
      label_pat (RSeq (RChar is_latin_ci) (RRep (is_name_tail is_latin_ci) 1 (Some 25))),
      label_pat (RSeq (RChar is_arabic) (RRep (is_name_tail is_arabic) 1 (Some 25)))]"

definition hit_of :: "rx \<Rightarrow> ustr \<Rightarrow> (ustr \<times> ustr) option" where
  \<comment> \<open>\<open>(m.group(1).strip(), m.group(2).strip())\<close> when the pattern matches the line; both
      groups take part in every match of a label pattern\<close>
  "hit_of p ln =
     (case re_match p ln of
        None \<Rightarrow> None
      | Some st \<Rightarrow>
          (case (group st 1, group st 2) of
             (Some a, Some b) \<Rightarrow> Some (strip a, strip b)
           | _ \<Rightarrow> None))"

fun first_hit :: "rx list \<Rightarrow> ustr \<Rightarrow> (ustr \<times> ustr) option" where
  \<comment> \<open>the loop over the patterns, left at the first that matches\<close>
  "first_hit [] ln = None"
| "first_hit (p # ps) ln = (case hit_of p ln of Some h \<Rightarrow> Some h | None \<Rightarrow> first_hit ps ln)"

definition speaker_step ::
  "(ustr \<Rightarrow> (ustr \<times> ustr) option) \<Rightarrow> (ustr \<times> ustr list) list \<times> ustr option \<Rightarrow> ustr
     \<Rightarrow> (ustr \<times> ustr list) list \<times> ustr option" where
  \<comment> \<open>one turn of the loop over the lines: the map and the current speaker\<close>
  "speaker_step hit st ln =
     (case st of (speaker_map, cur_speaker) \<Rightarrow>
        (case hit ln of
           Some (sp, rest) \<Rightarrow> (dict_append speaker_map sp rest, Some sp)
         | None \<Rightarrow>
             (case cur_speaker of
                Some sp \<Rightarrow> if sp \<noteq> [] then (dict_append speaker_map sp ln, cur_speaker)
                           else (speaker_map, cur_speaker)
              | None \<Rightarrow> (speaker_map, cur_speaker))))"

definition attribute_lines ::
  "(ustr \<Rightarrow> (ustr \<times> ustr) option) \<Rightarrow> ustr list \<Rightarrow> (ustr \<times> ustr list) list" where
  \<comment> \<open>the loop over the lines, for any way of recognising a label\<close>
  "attribute_lines hit lns = fst (foldl (speaker_step hit) ([], None) lns)"

definition group_by_speakers :: "ustr \<Rightarrow> (ustr \<times> ustr list) list" where
  \<comment> \<open>\<open>_group_by_speakers\<close>\<close>
  "group_by_speakers raw_text =
     (let lns = filter (\<lambda>ln. ln \<noteq> []) (map strip (splitlines raw_text))
      in if lns = [] then []
         else map (\<lambda>(sp, lst).
                (let sents = split_sentences (join (ascii '' '') lst)
                 in (sp, if sents \<noteq> [] then take 6 sents else take 6 lst)))
              (attribute_lines (first_hit SPEAKER_PATTERNS) lns))"

subsection \<open>The summary\<close>

record SmartSummary =
  bullets :: "ustr list"
  topics :: "(ustr \<times> ustr list) list"
  speakers :: "(ustr \<times> ustr list) list"
  decisions :: "ustr list"
  tasks :: "ustr list"
  numbers_dates :: "ustr list"
  keywords' :: "ustr list"

definition score_of :: "pylib \<Rightarrow> ustr list \<Rightarrow> ustr \<Rightarrow> int" where
  \<comment> \<open>the score of a sentence: 2 for each of the first eight keywords it contains, 3 for a
      decision word, 2 for a task word, less one for every 180 characters\<close>
  "score_of L kws s =
     (let s2 = str_lower L s
      in 2 * int (length (filter (\<lambda>w. contains w s2) (take 8 kws)))
         + (if any_kw L DECISION_KWS s2 then 3 else 0)
         + (if any_kw L TASK_KWS s2 then 2 else 0)
         - max 0 (int (length s) div 180))"

fun dedup60 :: "ustr list \<Rightarrow> ustr list \<Rightarrow> ustr list" where
  \<comment> \<open>the loop that drops a sentence whose first 60 characters were seen; the first
      argument is the set \<open>seen\<close>\<close>
  "dedup60 seen [] = []"
| "dedup60 seen (s # ss) =
     (if take 60 s \<in> set seen then dedup60 seen ss else s # dedup60 (take 60 s # seen) ss)"

definition build_smart_summary :: "pylib \<Rightarrow> ustr \<Rightarrow> SmartSummary" where
  "build_smart_summary L full_text =
     (let sentences = split_sentences full_text;
          kws = top_keywords L sentences 12;
          scored = map (\<lambda>s. (score_of L kws s, s)) sentences;
          top = map snd (take 10 (sort_key (\<lambda>(sc, s). - sc) scored))
      in \<lparr> bullets = dedup60 [] top,
           topics = group_by_topics L sentences,
           speakers = group_by_speakers full_text,
           decisions = detect_decisions L sentences,
           tasks = detect_tasks L sentences,
           numbers_dates = extract_numbers_dates sentences,
           keywords' = kws \<rparr>)"

section \<open>The model-backed summariser (\<open>core/summarization_service.py\<close>)\<close>

subsection \<open>The endpoint\<close>

text \<open>
  The HTTP endpoint is outside the program.  A call of \<open>session.post\<close> either raises or
  returns a response with a status code and a body; which of the two, and with what, is up
  to the endpoint, which may answer the same request differently at different times.  So
  the endpoint is any function of the requests made so far and the request at hand, and
  the functions that call it pass the log of requests along: \<open>f \<dots> log = (result, log')\<close>.
  An exception is a value: a result is \<open>Inl\<close> of the exception raised, or \<open>Inr\<close> of the
  value returned.
\<close>

datatype exn =
    ConnectionError
  | Timeout
  | HTTPError nat
  | JSONDecodeError
  | AttributeError

record request =
  req_url :: ustr
  req_json :: json
  req_timeout :: int

datatype outcome = Raises exn | Response nat ustr

type_synonym endpoint = "request list \<Rightarrow> request \<Rightarrow> outcome"

definition post :: "endpoint \<Rightarrow> request \<Rightarrow> request list \<Rightarrow> outcome \<times> request list" where
  "post ep rq log = (ep log rq, log @ [rq])"

definition raise_for_status :: "nat \<Rightarrow> exn option" where
  \<comment> \<open>\<open>r.raise_for_status()\<close> of \<open>requests\<close>: an \<open>HTTPError\<close> for a 4xx or 5xx status\<close>
  "raise_for_status st = (if 400 \<le> st \<and> st < 600 then Some (HTTPError st) else None)"

definition dict_get :: "json \<Rightarrow> ustr \<Rightarrow> exn + json" where
  \<comment> \<open>\<open>v.get(k)\<close>: only a \<open>dict\<close> has the method\<close>
  "dict_get v k =
     (case v of
        JDict ps \<Rightarrow> Inr (case map_of (rev ps) k of Some x \<Rightarrow> x | None \<Rightarrow> JNull)
      | _ \<Rightarrow> Inl AttributeError)"

definition py_str :: "pylib \<Rightarrow> json \<Rightarrow> ustr" where
  \<comment> \<open>\<open>str(v)\<close>\<close>
  "py_str L v =
     (case v of
        JStr s \<Rightarrow> s
      | JNull \<Rightarrow> ascii ''None''
      | JBool b \<Rightarrow> (if b then ascii ''True'' else ascii ''False'')
      | JInt i \<Rightarrow> str_of_int i
      | _ \<Rightarrow> repr_of L v)"

subsection \<open>The summariser\<close>

text \<open>The fields of the object, as \<open>__init__\<close> leaves them.\<close>

record OllamaSummarizer =
  base_url :: ustr
  model :: ustr
  timeout_sec :: int

record SummaryResult =
  summary :: ustr
  r_topics :: "ustr list"
  r_decisions :: "ustr list"
  r_tasks :: "ustr list"
  r_speakers :: "ustr list"

definition empty_result :: "ustr \<Rightarrow> SummaryResult" where
  "empty_result s = \<lparr> summary = s, r_topics = [], r_decisions = [], r_tasks = [], r_speakers = [] \<rparr>"

subsection \<open>Chunks\<close>

definition is_stop_mark :: "uchar \<Rightarrow> bool" where
  \<comment> \<open>\<open>[.!\<dots>\?]\<close> with the Arabic question mark U+061F\<close>
  "is_stop_mark c \<longleftrightarrow> c = 46 \<or> c = 33 \<or> c = 1567 \<or> c = 63"

definition chunk_sep :: rx where
  \<comment> \<open>\<open>(\n+|[.!\<dots>\?])\<close>\<close>
  "chunk_sep = RGroup 1 (RAlt (RRep (\<lambda>c. c = 10) 1 None) (RChar is_stop_mark))"

type_synonym chunk_state = "ustr list \<times> ustr list \<times> nat"

definition flush :: "chunk_state \<Rightarrow> chunk_state" where
  \<comment> \<open>the closure \<open>flush\<close> on \<open>parts\<close>, \<open>buf\<close> and \<open>size\<close>\<close>
  "flush st =
     (case st of (parts, buf, sz) \<Rightarrow>
        if buf \<noteq> [] then (parts @ [strip (join (ascii '' '') buf)], [], 0)
        else (parts, buf, sz))"

fun chunk_loop :: "int \<Rightarrow> int \<Rightarrow> ustr list \<Rightarrow> chunk_state \<Rightarrow> chunk_state" where
  \<comment> \<open>the loop over the tokens; it is left early once \<open>max_chunks\<close> parts are closed\<close>
  "chunk_loop chunk_size max_chunks [] st = st"
| "chunk_loop chunk_size max_chunks (token # rest) (parts, buf, sz) =
     (if token = [] \<or> strip token = [] then
        chunk_loop chunk_size max_chunks rest (parts, buf, sz)
      else if int (sz + length (strip token) + 1) > chunk_size then
        (case flush (parts, buf, sz) of (parts', buf', sz') \<Rightarrow>
           if int (length parts') \<ge> max_chunks then (parts', buf', sz')
           else chunk_loop chunk_size max_chunks rest
                  (parts', buf' @ [strip token], sz' + length (strip token) + 1))
      else chunk_loop chunk_size max_chunks rest
             (parts, buf @ [strip token], sz + length (strip token) + 1))"

definition chunk_tokens :: "ustr list \<Rightarrow> int \<Rightarrow> int \<Rightarrow> ustr list" where
  \<comment> \<open>\<open>_chunk_text\<close> from the tokens on\<close>
  "chunk_tokens toks chunk_size max_chunks =
     (let st = chunk_loop chunk_size max_chunks toks ([], [], 0);
          parts = (if int (length (fst st)) < max_chunks then fst (flush st) else fst st)
      in filter (\<lambda>p. p \<noteq> []) parts)"

definition chunk_text :: "ustr \<Rightarrow> int \<Rightarrow> int \<Rightarrow> ustr list" where
  \<comment> \<open>\<open>_chunk_text\<close>\<close>
  "chunk_text txt chunk_size max_chunks =
     chunk_tokens (re_split_group chunk_sep txt) chunk_size max_chunks"

definition closing :: "int \<Rightarrow> chunk_state \<Rightarrow> ustr list" where
  \<comment> \<open>the parts once the loop is left: \<open>if len(parts) < max_chunks: flush()\<close>\<close>
  "closing mc st = (if int (length (fst st)) < mc then fst (flush st) else fst st)"

subsection \<open>Prompt, call, parsing\<close>

definition prompt_structured :: "pylib \<Rightarrow> ustr \<Rightarrow> ustr \<Rightarrow> ustr \<Rightarrow> bool \<Rightarrow> ustr" where
  \<comment> \<open>\<open>_prompt_structured\<close>; the Arabic sentences say what the English ones say\<close>
  "prompt_structured L txt language title compact =
     (let ar = is_prefix (ascii ''ar'') (str_lower L language);
          style = (if ar then
                     [1575, 1603, 1578, 1576, 32, 1576, 1575, 1604, 1593, 1585, 1576, 1610, 1577,
                      32, 1575, 1604, 1601, 1589, 1581, 1609, 32, 1608, 1576, 1588, 1603, 1604,
                      32, 1585, 1587, 1605, 1610, 46]
                   else ascii ''Write in English, formal and clear.'');
          extra = (if ar then
                     (if compact then
                        [1575, 1580, 1593, 1604, 32, 1575, 1604, 1605, 1604, 1582, 1589, 32,
                         1602, 1589, 1610, 1585, 1575, 1611, 46]
                      else
                        [1575, 1580, 1593, 1604, 32, 1575, 1604, 1605, 1604, 1582, 1589, 32,
                         1608, 1575, 1590, 1581, 1575, 1611, 32, 1608, 1605, 1601, 1589, 1604,
                         1575, 1611, 46])
                   else (if compact then ascii ''Keep it short.''
                         else ascii ''Make it clear and detailed.''))
      in strip
           ([10] @ style @ [10] @ extra @ [10, 10]
            @ ascii ''Return ONLY valid JSON (no markdown).'' @ [10]
            @ ascii ''Keys:'' @ [10]
            @ ascii ''- summary: string'' @ [10]
            @ ascii ''- topics: array of strings'' @ [10]
            @ ascii ''- decisions: array of strings'' @ [10]
            @ ascii ''- tasks: array of strings (include assignee if known)'' @ [10]
            @ ascii ''- speakers: array of strings (if detectable, else empty)'' @ [10, 10]
            @ ascii ''Title: '' @ title @ [10, 10]
            @ ascii ''Transcript:'' @ [10] @ txt @ [10]))"

definition chat_request :: "OllamaSummarizer \<Rightarrow> ustr \<Rightarrow> request" where
  "chat_request self prompt =
     \<lparr> req_url = base_url self @ ascii ''/api/chat'',
       req_json = JDict
         [(ascii ''model'', JStr (model self)),
          (ascii ''stream'', JBool False),
          (ascii ''messages'', JList
             [JDict [(ascii ''role'', JStr (ascii ''system'')),
                     (ascii ''content'',
                      JStr (ascii ''You are an expert meeting summarizer. Return only JSON.''))],
              JDict [(ascii ''role'', JStr (ascii ''user'')),
                     (ascii ''content'', JStr prompt)]])],
       req_timeout = timeout_sec self \<rparr>"

definition generate_request :: "OllamaSummarizer \<Rightarrow> ustr \<Rightarrow> request" where
  "generate_request self prompt =
     \<lparr> req_url = base_url self @ ascii ''/api/generate'',
       req_json = JDict
         [(ascii ''model'', JStr (model self)),
          (ascii ''prompt'', JStr prompt),
          (ascii ''stream'', JBool False)],
       req_timeout = timeout_sec self \<rparr>"

definition response_json :: "ustr \<Rightarrow> exn + json" where
  \<comment> \<open>\<open>r.json()\<close>\<close>
  "response_json body = (case json_loads body of None \<Rightarrow> Inl JSONDecodeError | Some v \<Rightarrow> Inr v)"

definition chat_reply :: "pylib \<Rightarrow> outcome \<Rightarrow> exn + ustr" where
  \<comment> \<open>the \<open>try\<close> block from the outcome of its \<open>post\<close> on\<close>
  "chat_reply L out =
     (case out of
        Raises e \<Rightarrow> Inl e
      | Response st body \<Rightarrow>
          if st = 404 then Inl (HTTPError 404)
          else (case raise_for_status st of
                  Some e \<Rightarrow> Inl e
                | None \<Rightarrow>
                    (case response_json body of
                       Inl e \<Rightarrow> Inl e
                     | Inr data \<Rightarrow>
                         (case dict_get data (ascii ''message'') of
                            Inl e \<Rightarrow> Inl e
                          | Inr m \<Rightarrow>
                              (case dict_get (py_or m (JDict [])) (ascii ''content'') of
                                 Inl e \<Rightarrow> Inl e
                               | Inr c \<Rightarrow> Inr (py_str L (py_or c (JStr []))))))))"

definition generate_reply :: "pylib \<Rightarrow> outcome \<Rightarrow> exn + ustr" where
  \<comment> \<open>the \<open>except\<close> block from the outcome of its \<open>post\<close> on\<close>
  "generate_reply L out =
     (case out of
        Raises e \<Rightarrow> Inl e
      | Response st body \<Rightarrow>
          (case raise_for_status st of
             Some e \<Rightarrow> Inl e
           | None \<Rightarrow>
               (case response_json body of
                  Inl e \<Rightarrow> Inl e
                | Inr data2 \<Rightarrow>
                    (case dict_get data2 (ascii ''response'') of
                       Inl e \<Rightarrow> Inl e
                     | Inr r \<Rightarrow> Inr (py_str L (py_or r (JStr [])))))))"

definition ollama_call ::
  "pylib \<Rightarrow> OllamaSummarizer \<Rightarrow> endpoint \<Rightarrow> ustr \<Rightarrow> request list \<Rightarrow> (exn + ustr) \<times> request list" where
  \<comment> \<open>\<open>_ollama_call\<close>: \<open>except Exception\<close> catches whatever the \<open>try\<close> block raises\<close>
  "ollama_call L self ep prompt log =
     (case post ep (chat_request self prompt) log of
        (out, log1) \<Rightarrow>
          (case chat_reply L out of
             Inr s \<Rightarrow> (Inr s, log1)
           | Inl _ \<Rightarrow>
               (case post ep (generate_request self prompt) log1 of
                  (out2, log2) \<Rightarrow> (generate_reply L out2, log2))))"

definition brace_pat :: rx where
  \<comment> \<open>\<open>\{.*\}\<close> under \<open>re.DOTALL\<close>\<close>
  "brace_pat = rseq [RChar (\<lambda>c. c = 123), RRep (\<lambda>c. True) 0 None, RChar (\<lambda>c. c = 125)]"

definition parse_json :: "ustr \<Rightarrow> json" where
  \<comment> \<open>\<open>_parse_json\<close>; its \<open>None\<close> is \<open>JNull\<close>\<close>
  "parse_json s =
     (if s = [] then JNull
      else (case json_loads (strip s) of
              Some v \<Rightarrow> v
            | None \<Rightarrow>
                (case re_search brace_pat (strip s) of
                   Some blob \<Rightarrow> (case json_loads (strip blob) of Some v \<Rightarrow> v | None \<Rightarrow> JNull)
                 | None \<Rightarrow> JNull)))"

definition is_bullet :: "uchar \<Rightarrow> bool" where
  \<comment> \<open>the characters of \<open>" -\<bullet>\t"\<close>\<close>
  "is_bullet c \<longleftrightarrow> c = 32 \<or> c = 45 \<or> c = 8226 \<or> c = 9"

definition as_list :: "pylib \<Rightarrow> json \<Rightarrow> ustr list" where
  \<comment> \<open>\<open>_as_list\<close>\<close>
  "as_list L v =
     (case v of
        JNull \<Rightarrow> []
      | JList xs \<Rightarrow> filter (\<lambda>x. x \<noteq> []) (map (\<lambda>x. strip (py_str L x)) xs)
      | JStr s \<Rightarrow> filter (\<lambda>ln. ln \<noteq> []) (map (strip_chars is_bullet) (splitlines s))
      | _ \<Rightarrow> (if strip (py_str L v) \<noteq> [] then [strip (py_str L v)] else []))"

definition fallback_sep :: rx where
  \<comment> \<open>\<open>(?<=[.!\<dots>\?])\s+\<close>\<close>
  "fallback_sep = RSeq (RBehind is_stop_mark) (RRep is_space 1 None)"

definition fallback_summary :: "ustr \<Rightarrow> ustr" where
  \<comment> \<open>\<open>_fallback_summary\<close>\<close>
  "fallback_summary txt =
     take 1200 (join (ascii '' '')
       (take 5 (filter (\<lambda>s. s \<noteq> []) (map strip (re_split fallback_sep (strip txt))))))"

subsection \<open>One chunk, one pass, the whole transcript\<close>

definition summarize_chunk ::
  "pylib \<Rightarrow> OllamaSummarizer \<Rightarrow> endpoint \<Rightarrow> ustr \<Rightarrow> ustr \<Rightarrow> ustr \<Rightarrow> request list
     \<Rightarrow> (exn + ustr) \<times> request list" where
  \<comment> \<open>\<open>_summarize_chunk\<close>; \<open>.strip()\<close> is a method of \<open>str\<close> only\<close>
  "summarize_chunk L self ep txt language title log =
     (case ollama_call L self ep (prompt_structured L txt language title True) log of
        (Inl e, log') \<Rightarrow> (Inl e, log')
      | (Inr out, log') \<Rightarrow>
          (let parsed = parse_json out
           in if \<not> truthy parsed then (Inr (fallback_summary txt), log')
              else (case dict_get parsed (ascii ''summary'') of
                      Inl e \<Rightarrow> (Inl e, log')
                    | Inr v \<Rightarrow>
                        (case py_or v (JStr []) of
                           JStr s \<Rightarrow>
                             if strip s \<noteq> [] then (Inr (strip (py_str L v)), log')
                             else (Inr (fallback_summary txt), log')
                         | _ \<Rightarrow> (Inl AttributeError, log')))))"

definition summarize_structured_once ::
  "pylib \<Rightarrow> OllamaSummarizer \<Rightarrow> endpoint \<Rightarrow> ustr \<Rightarrow> ustr \<Rightarrow> ustr \<Rightarrow> request list
     \<Rightarrow> (exn + SummaryResult) \<times> request list" where
  \<comment> \<open>\<open>_summarize_structured_once\<close>\<close>
  "summarize_structured_once L self ep txt language title log =
     (case ollama_call L self ep (prompt_structured L txt language title False) log of
        (Inl e, log') \<Rightarrow> (Inl e, log')
      | (Inr out, log') \<Rightarrow>
          (let parsed = parse_json out
           in if \<not> truthy parsed then (Inr (empty_result (fallback_summary txt)), log')
              else (case parsed of
                      JDict ps \<Rightarrow>
                        (let get = (\<lambda>k. case map_of (rev ps) k of Some x \<Rightarrow> x | None \<Rightarrow> JNull)
                         in (Inr \<lparr> summary = strip (py_str L (py_or (get (ascii ''summary'')) (JStr []))),
                                   r_topics = as_list L (get (ascii ''topics'')),
                                   r_decisions = as_list L (get (ascii ''decisions'')),
                                   r_tasks = as_list L (get (ascii ''tasks'')),
                                   r_speakers = as_list L (get (ascii ''speakers'')) \<rparr>, log'))
                    | _ \<Rightarrow> (Inl AttributeError, log'))))"

definition chunk_title :: "ustr \<Rightarrow> nat \<Rightarrow> ustr" where
  \<comment> \<open>the title of a chunk: the title, then "(part \<open>idx\<close>)" in Arabic\<close>
  "chunk_title title idx = title @ [32, 40, 1580, 1586, 1569, 32] @ str_of_nat idx @ ascii '')''"

fun summarize_chunks ::
  "pylib \<Rightarrow> OllamaSummarizer \<Rightarrow> endpoint \<Rightarrow> ustr \<Rightarrow> ustr \<Rightarrow> nat \<Rightarrow> ustr list \<Rightarrow> request list
     \<Rightarrow> (exn + ustr list) \<times> request list" where
  \<comment> \<open>the loop over the chunks, numbered from the given index; an exception ends it\<close>
  "summarize_chunks L self ep language title idx [] log = (Inr [], log)"
| "summarize_chunks L self ep language title idx (ch # chs) log =
     (case summarize_chunk L self ep ch language (chunk_title title idx) log of
        (Inl e, log') \<Rightarrow> (Inl e, log')
      | (Inr s, log') \<Rightarrow>
          (case summarize_chunks L self ep language title (idx + 1) chs log' of
             (Inl e, log'') \<Rightarrow> (Inl e, log'')
           | (Inr ss, log'') \<Rightarrow> (Inr (s # ss), log'')))"

definition summarize_structured ::
  "pylib \<Rightarrow> OllamaSummarizer \<Rightarrow> endpoint \<Rightarrow> ustr \<Rightarrow> ustr \<Rightarrow> ustr \<Rightarrow> request list
     \<Rightarrow> (exn + SummaryResult) \<times> request list" where
  \<comment> \<open>\<open>summarize_structured\<close>; \<open>(transcript_text or "")\<close> is the text for a \<open>str\<close>\<close>
  "summarize_structured L self ep transcript_text title language log =
     (let txt = strip transcript_text
      in if txt = [] then (Inr (empty_result []), log)
         else if length txt > 12000 then
           (case summarize_chunks L self ep language title 1 (chunk_text txt 6000 6) log of
              (Inl e, log') \<Rightarrow> (Inl e, log')
            | (Inr chunk_summaries, log') \<Rightarrow>
                summarize_structured_once L self ep (join [10, 10] chunk_summaries) language title log')
         else summarize_structured_once L self ep txt language title log)"

section \<open>A runtime and inputs for the examples\<close>

text \<open>
  The examples below are ASCII, where \<open>str.lower\<close> maps \<open>A\<close> to \<open>Z\<close> onto \<open>a\<close> to \<open>z\<close> and
  leaves the rest; no example prints a float, a list or a dict.
\<close>

definition demo_lib :: pylib where
  "demo_lib = \<lparr> str_lower = map (\<lambda>c. if 65 \<le> c \<and> c \<le> 90 then c + 32 else c),
                repr_of = (\<lambda>v. []) \<rparr>"

definition demo_self :: OllamaSummarizer where
  "demo_self = \<lparr> base_url = ascii ''http://127.0.0.1:11434'', model = ascii ''gemma3:4b'',
                 timeout_sec = 180 \<rparr>"

definition refusing :: endpoint where
  \<comment> \<open>an endpoint nobody listens at\<close>
  "refusing = (\<lambda>log rq. Raises ConnectionError)"

definition demo_body :: ustr where
  \<comment> \<open>the body of a chat response whose message content is \<open>demo_reply\<close>\<close>
  "demo_body =
     ascii ''{\"message\":{\"content\":\"here is json: {'' @ [92] @ ascii ''\"summary'' @ [92] @ ascii ''\":'' @ [92] @ ascii ''\"x'' @ [92] @ ascii ''\",'' @ [92] @ ascii ''\"topics'' @ [92] @ ascii ''\":['' @ [92] @ ascii ''\"a'' @ [92] @ ascii ''\"]}\"}}''"

definition answering :: "ustr \<Rightarrow> endpoint" where
  \<comment> \<open>an endpoint that answers every request with status 200 and the given body\<close>
  "answering body = (\<lambda>log rq. Response 200 body)"

definition long_text :: ustr where
  \<comment> \<open>12,002 characters: a short sentence, then a run without a stop or a line break\<close>
  "long_text = ascii ''a.'' @ replicate 12000 98"


definition four_runs :: ustr where
  \<comment> \<open>24,003 characters: four such runs\<close>
  "four_runs = replicate 6000 98 @ 46 # replicate 6000 98 @ 46 # replicate 6000 98
                 @ 46 # replicate 6000 98"

definition oops_body :: ustr where
  \<comment> \<open>the body of a chat response whose message content is the word \<open>oops\<close>\<close>
  "oops_body = ascii ''{\"message\":{\"content\":\"oops\"}}''"

definition empty_object_body :: ustr where
  \<comment> \<open>the body of a chat response whose message content is \<open>{}\<close>\<close>
  "empty_object_body = ascii ''{\"message\":{\"content\":\"{}\"}}''"

definition ambiguous :: endpoint where
  \<comment> \<open>an endpoint without the chat route whose generate route answers with status 300
      (Multiple Choices, which \<open>requests\<close> does not follow as a redirect) and a JSON body\<close>
  "ambiguous = (\<lambda>log rq. if log = [] then Response 404 []
                          else Response 300 (ascii ''{\"response\":\"ok\"}''))"

definition failing :: endpoint where
  \<comment> \<open>an endpoint without the chat route whose generate route answers with status 500\<close>
  "failing = (\<lambda>log rq. if log = [] then Response 404 [] else Response 500 [])"

section \<open>The caps of the rule-based summary\<close>

lemma length_dedup60: "length (dedup60 seen xs) \<le> length xs"
  by (induction xs arbitrary: seen) (auto simp: le_SucI)

lemma group_by_topics_le6: "\<forall>(k, lst) \<in> set (group_by_topics L ss). length lst \<le> 6"
  by (auto simp: group_by_topics_def Let_def split: prod.splits)

text \<open>
  C2.  For every transcript the summary keeps its caps: at most 10 bullets, 12 decisions,
  15 tasks, 12 sentences with numbers or dates, and at most 6 sentences under every topic,
  the derived topics included (they pass through the same final cut).
\<close>

theorem smart_summary_caps:
  "length (bullets (build_smart_summary L t)) \<le> 10
   \<and> length (decisions (build_smart_summary L t)) \<le> 12
   \<and> length (tasks (build_smart_summary L t)) \<le> 15
   \<and> length (numbers_dates (build_smart_summary L t)) \<le> 12
   \<and> (\<forall>(k, lst) \<in> set (topics (build_smart_summary L t)). length lst \<le> 6)"
proof -
  have b: "length (bullets (build_smart_summary L t)) \<le> 10"
  proof -
    have "length (dedup60 [] (map snd (take 10 xs))) \<le> 10" for xs :: "(int \<times> ustr) list"
      using length_dedup60 [of "[]" "map snd (take 10 xs)"] by simp
    then show ?thesis by (simp add: build_smart_summary_def Let_def)
  qed
  have d: "length (decisions (build_smart_summary L t)) \<le> 12"
    by (simp add: build_smart_summary_def Let_def detect_decisions_def)
  have k: "length (tasks (build_smart_summary L t)) \<le> 15"
    by (simp add: build_smart_summary_def Let_def detect_tasks_def)
  have n: "length (numbers_dates (build_smart_summary L t)) \<le> 12"
    by (simp add: build_smart_summary_def Let_def extract_numbers_dates_def)
  have tp: "\<forall>(k, lst) \<in> set (topics (build_smart_summary L t)). length lst \<le> 6"
    using group_by_topics_le6 by (simp add: build_smart_summary_def Let_def)
  from b d k n tp show ?thesis by blast
qed

lemma demo_sentences:
  "split_sentences (ascii ''The plan. ok'') = [ascii ''The plan'', ascii ''ok'']"
  by (simp add: split_sentences_def ascii_def strip_def strip_chars_def is_space_def re_sub_def
      re_split_def ws_run_def is_sentence_end_def)

lemma demo_topics:
  "group_by_topics demo_lib [ascii ''The plan'', ascii ''ok'']
     = [(fst (TOPIC_HINTS ! 2), [ascii ''The plan''])]"
  by (simp add: group_by_topics_def hint_step_def topic_of_def any_kw_def TOPIC_HINTS_def
      demo_lib_def ascii_def strip_def strip_chars_def is_space_def top_keywords_def
      most_common_def counter_update_def tokenize_def re_findall_def word_pat_def is_latin_def
      is_arabic_def AR_STOP_def EN_STOP_def dyn_step_def dyn_other_def dyn_prefix_def Let_def)

theorem smart_summary_caps_witness:
  "topics (build_smart_summary demo_lib (ascii ''The plan. ok''))
     = [(fst (TOPIC_HINTS ! 2), [ascii ''The plan''])]
   \<and> length [ascii ''The plan''] \<le> (6::nat)
   \<and> length (bullets (build_smart_summary demo_lib (ascii ''The plan. ok''))) \<le> 10"
proof -
  have t: "topics (build_smart_summary demo_lib (ascii ''The plan. ok''))
     = [(fst (TOPIC_HINTS ! 2), [ascii ''The plan''])]"
    by (simp add: build_smart_summary_def Let_def demo_sentences demo_topics)
  show ?thesis
    using smart_summary_caps [of demo_lib "ascii ''The plan. ok''"] t by simp
qed

section \<open>Empty and blank transcripts\<close>

lemma splitlines_from_chars:
  "set (concat (splitlines_from cur s)) \<subseteq> set cur \<union> set s"
proof (induction cur s rule: splitlines_from.induct)
  case (1 cur)
  then show ?case by simp
next
  case (2 cur c cs)
  show ?case
  proof (cases "c = 13")
    case True
    show ?thesis
    proof (cases cs)
      case Nil
      then show ?thesis using True by auto
    next
      case (Cons d ds)
      show ?thesis
      proof (cases "d = 10")
        case t: True
        have ih: "set (concat (splitlines_from [] ds)) \<subseteq> set [] \<union> set ds"
          using "2.IH"(1) [OF True Cons t] .
        have eq: "splitlines_from cur (c # d # ds) = cur # splitlines_from [] ds"
          using True t by simp
        show ?thesis unfolding Cons eq using ih by auto
      next
        case f: False
        have ih: "set (concat (splitlines_from [] cs)) \<subseteq> set [] \<union> set cs"
          using "2.IH"(2) [OF True Cons f] .
        have eq: "splitlines_from cur (c # cs) = cur # splitlines_from [] cs"
          using True f by (simp add: Cons)
        show ?thesis unfolding eq using ih by auto
      qed
    qed
  next
    case False
    show ?thesis
    proof (cases "is_linebreak c")
      case t: True
      have ih: "set (concat (splitlines_from [] cs)) \<subseteq> set [] \<union> set cs"
        using "2.IH"(3) [OF False t] .
      have eq: "splitlines_from cur (c # cs) = cur # splitlines_from [] cs"
        using False t by simp
      show ?thesis unfolding eq using ih by auto
    next
      case f: False
      have ih: "set (concat (splitlines_from (cur @ [c]) cs)) \<subseteq> set (cur @ [c]) \<union> set cs"
        using "2.IH"(4) [OF False f] .
      have eq: "splitlines_from cur (c # cs) = splitlines_from (cur @ [c]) cs"
        using False f by simp
      show ?thesis unfolding eq using ih by auto
    qed
  qed
qed

lemma strip_all_space: "\<forall>c\<in>set t. is_space c \<Longrightarrow> strip t = []"
proof -
  assume a: "\<forall>c\<in>set t. is_space c"
  then have h: "dropWhile is_space t = []" by (simp add: dropWhile_eq_Nil_conv)
  show ?thesis unfolding strip_def strip_chars_def h by simp
qed

lemma split_sentences_blank: "strip t = [] \<Longrightarrow> split_sentences t = []"
  by (simp add: split_sentences_def re_sub_def)

lemma top_keywords_Nil: "top_keywords L [] k = []"
  by (simp add: top_keywords_def most_common_def)

lemma group_by_topics_Nil: "group_by_topics L [] = []"
  by (simp add: group_by_topics_def TOPIC_HINTS_def)

lemma splitlines_all_space:
  assumes "\<forall>c\<in>set t. is_space c" and "ln \<in> set (splitlines t)"
  shows "strip ln = []"
proof -
  have "set ln \<subseteq> set (concat (splitlines t))" using assms(2) by auto
  also have "\<dots> \<subseteq> set t" using splitlines_from_chars [of "[]" t] by (simp add: splitlines_def)
  finally have "set ln \<subseteq> set t" .
  then have "\<forall>c\<in>set ln. is_space c" using assms(1) by blast
  then show ?thesis by (rule strip_all_space)
qed

lemma group_by_speakers_blank:
  assumes "\<forall>c\<in>set t. is_space c"
  shows "group_by_speakers t = []"
proof -
  have "filter (\<lambda>ln. ln \<noteq> []) (map strip (splitlines t)) = []"
    using splitlines_all_space [OF assms] by (simp add: filter_empty_conv)
  then show ?thesis by (simp add: group_by_speakers_def)
qed

text \<open>
  C5.  A transcript that is empty or all white space gives the empty summary: every list
  and both maps of the rule-based summary are empty, and the model-backed summary has the
  empty string and four empty lists.  No request is made: the log comes back as it was,
  whatever the endpoint.
\<close>

theorem empty_transcript:
  assumes "\<forall>c\<in>set t. is_space c"
  shows "build_smart_summary L t =
           \<lparr> bullets = [], topics = [], speakers = [], decisions = [], tasks = [],
             numbers_dates = [], keywords' = [] \<rparr>
         \<and> summarize_structured L self ep t title language log =
           (Inr \<lparr> summary = [], r_topics = [], r_decisions = [], r_tasks = [], r_speakers = [] \<rparr>, log)"
proof -
  have s: "strip t = []" using assms by (rule strip_all_space)
  have a: "build_smart_summary L t =
           \<lparr> bullets = [], topics = [], speakers = [], decisions = [], tasks = [],
             numbers_dates = [], keywords' = [] \<rparr>"
    by (simp add: build_smart_summary_def split_sentences_blank [OF s] top_keywords_Nil
        group_by_topics_Nil group_by_speakers_blank [OF assms] detect_decisions_def
        detect_tasks_def extract_numbers_dates_def)
  have b: "summarize_structured L self ep t title language log =
           (Inr \<lparr> summary = [], r_topics = [], r_decisions = [], r_tasks = [], r_speakers = [] \<rparr>, log)"
    by (simp add: summarize_structured_def s empty_result_def)
  from a b show ?thesis by simp
qed

theorem empty_transcript_witness:
  "is_space 32 \<and> is_space 10 \<and> is_space 9 \<and> is_space 12288
   \<and> summarize_structured demo_lib demo_self refusing [32, 10, 9, 12288] (ascii ''Weekly'')
         (ascii ''en'') [] =
           (Inr \<lparr> summary = [], r_topics = [], r_decisions = [], r_tasks = [], r_speakers = [] \<rparr>, [])
   \<and> build_smart_summary demo_lib [32, 10, 9, 12288] =
           \<lparr> bullets = [], topics = [], speakers = [], decisions = [], tasks = [],
             numbers_dates = [], keywords' = [] \<rparr>"
proof -
  have h: "\<forall>c\<in>set [32, 10, 9, 12288]. is_space c" by (simp add: is_space_def)
  show ?thesis using h empty_transcript [OF h, of demo_lib demo_self refusing "ascii ''Weekly''" "ascii ''en''" "[]"] by simp
qed

section \<open>Speaker attribution\<close>

definition demo_lines :: ustr where
  \<comment> \<open>three lines: a label, a line without one, another label\<close>
  "demo_lines = ascii ''Speaker 1: hello there.'' @ [10] @ ascii ''no label line.'' @ [10] @ ascii ''Speaker 2: hi.''"

lemmas rx_defs = SPEAKER_PATTERNS_def label_pat_def rlit_ci_def ci_eq_def is_latin_ci_def is_name_tail_def
  is_label_sep_def is_latin_def is_arabic_def is_ascii_digit_def is_digit_def digit_ranges_def
  is_space_def hit_of_def re_match_def group_def strip_def strip_chars_def ascii_def

lemma demo_split: "filter (\<lambda>ln. ln \<noteq> []) (map strip (splitlines demo_lines))
   = [ascii ''Speaker 1: hello there.'', ascii ''no label line.'', ascii ''Speaker 2: hi.'']"
  by (simp add: demo_lines_def splitlines_def is_linebreak_def strip_def strip_chars_def is_space_def ascii_def)

lemma demo_hit1: "first_hit SPEAKER_PATTERNS (ascii ''Speaker 1: hello there.'') = Some (ascii ''Speaker 1'', ascii ''hello there.'')"
  by (simp add: rx_defs)

lemma demo_hit2: "first_hit SPEAKER_PATTERNS (ascii ''no label line.'') = None"
  by (simp add: rx_defs)

lemma demo_hit3: "first_hit SPEAKER_PATTERNS (ascii ''Speaker 2: hi.'') = Some (ascii ''Speaker 2'', ascii ''hi.'')"
  by (simp add: rx_defs)

lemma demo_attributed:
  "attribute_lines (first_hit SPEAKER_PATTERNS)
     [ascii ''Speaker 1: hello there.'', ascii ''no label line.'', ascii ''Speaker 2: hi.'']
   = [(ascii ''Speaker 1'', [ascii ''hello there.'', ascii ''no label line.'']),
      (ascii ''Speaker 2'', [ascii ''hi.''])]"
  by (simp add: attribute_lines_def speaker_step_def demo_hit1 demo_hit2 demo_hit3)
     (simp add: ascii_def)

lemma demo_sents1:
  "split_sentences (ascii ''hello there.'' @ ascii '' '' @ ascii ''no label line.'')
     = [ascii ''hello there'', ascii ''no label line'']"
  by (simp add: split_sentences_def ascii_def strip_def strip_chars_def is_space_def re_sub_def
      re_split_def ws_run_def is_sentence_end_def)

lemma demo_sents2:
  "split_sentences (ascii ''hi.'') = [ascii ''hi'']"
  by (simp add: split_sentences_def ascii_def strip_def strip_chars_def is_space_def re_sub_def
      re_split_def ws_run_def is_sentence_end_def)

lemma map_of_dict_append:
  "map_of (dict_append m k v) = (map_of m)(k \<mapsto> utterances m k @ [v])"
  by (induction m) (auto simp: utterances_def fun_eq_iff)

text \<open>
  C7.  The three lines "Speaker 1: hello there." / "no label line." / "Speaker 2: hi." give
  exactly two groups: "Speaker 1" with the text of the first line and of the unlabelled
  line after it, "Speaker 2" with the text of the third line.  In general, one turn of the
  loop over the lines does this: a line that a label pattern matches makes its label the
  current speaker and adds the rest of the line to what that speaker said; a line that
  none matches is added to what the current speaker said when there is one, and changes
  nothing otherwise.
\<close>

theorem speaker_attribution:
  "group_by_speakers
     (ascii ''Speaker 1: hello there.'' @ [10] @ ascii ''no label line.'' @ [10]
      @ ascii ''Speaker 2: hi.'')
   = [(ascii ''Speaker 1'', [ascii ''hello there'', ascii ''no label line'']),
      (ascii ''Speaker 2'', [ascii ''hi''])]
   \<and> (\<forall>m cur ln.
        case speaker_step (first_hit SPEAKER_PATTERNS) (m, cur) ln of
          (m', cur') \<Rightarrow>
            (case first_hit SPEAKER_PATTERNS ln of
               Some (sp, rest) \<Rightarrow>
                 cur' = Some sp \<and> map_of m' = (map_of m)(sp \<mapsto> utterances m sp @ [rest])
             | None \<Rightarrow>
                 cur' = cur \<and>
                 (case cur of
                    Some sp \<Rightarrow>
                      if sp \<noteq> [] then map_of m' = (map_of m)(sp \<mapsto> utterances m sp @ [ln])
                      else m' = m
                  | None \<Rightarrow> m' = m)))"
proof -
  have a: "group_by_speakers
     (ascii ''Speaker 1: hello there.'' @ [10] @ ascii ''no label line.'' @ [10]
      @ ascii ''Speaker 2: hi.'')
   = [(ascii ''Speaker 1'', [ascii ''hello there'', ascii ''no label line'']),
      (ascii ''Speaker 2'', [ascii ''hi''])]"
    unfolding group_by_speakers_def demo_split [unfolded demo_lines_def] Let_def
    by (simp add: demo_attributed demo_sents1 demo_sents2)
  have b: "case speaker_step (first_hit SPEAKER_PATTERNS) (m, cur) ln of
          (m', cur') \<Rightarrow>
            (case first_hit SPEAKER_PATTERNS ln of
               Some (sp, rest) \<Rightarrow>
                 cur' = Some sp \<and> map_of m' = (map_of m)(sp \<mapsto> utterances m sp @ [rest])
             | None \<Rightarrow>
                 cur' = cur \<and>
                 (case cur of
                    Some sp \<Rightarrow>
                      if sp \<noteq> [] then map_of m' = (map_of m)(sp \<mapsto> utterances m sp @ [ln])
                      else m' = m
                  | None \<Rightarrow> m' = m))" for m cur ln
    by (simp add: speaker_step_def map_of_dict_append split: option.splits prod.splits)
  show ?thesis by (rule conjI [OF a]) (intro allI, rule b)
qed

theorem speaker_attribution_witness:
  "first_hit SPEAKER_PATTERNS (ascii ''Speaker 2: hi.'') = Some (ascii ''Speaker 2'', ascii ''hi.'')
   \<and> speaker_step (first_hit SPEAKER_PATTERNS)
        ([(ascii ''Speaker 1'', [ascii ''hello there.''])], Some (ascii ''Speaker 1''))
        (ascii ''Speaker 2: hi.'')
      = ([(ascii ''Speaker 1'', [ascii ''hello there.'']), (ascii ''Speaker 2'', [ascii ''hi.''])],
         Some (ascii ''Speaker 2''))
   \<and> first_hit SPEAKER_PATTERNS (ascii ''no label line.'') = None
   \<and> speaker_step (first_hit SPEAKER_PATTERNS) ([], None) (ascii ''no label line.'') = ([], None)
   \<and> group_by_speakers
     (ascii ''Speaker 1: hello there.'' @ [10] @ ascii ''no label line.'' @ [10]
      @ ascii ''Speaker 2: hi.'') \<noteq> []"
  using speaker_attribution
  by (simp add: speaker_step_def demo_hit2 demo_hit3) (simp add: ascii_def)

section \<open>Parsing a reply\<close>

definition demo_reply :: ustr where
  \<comment> \<open>a reply that wraps its JSON in prose\<close>
  "demo_reply = ascii ''here is json: {\"summary\":\"x\",\"topics\":[\"a\"]}''"

lemmas json_defs = json_loads_def skip_ws_def is_json_ws_def parse_members.simps parse_elems.simps
  ascii_def hex_val_def unescape_def

lemma demo_reply_strip: "strip demo_reply = demo_reply"
  by (simp add: demo_reply_def strip_def strip_chars_def is_space_def ascii_def)

lemma demo_reply_direct: "json_loads demo_reply = None"
  by (simp add: demo_reply_def json_defs scan_number_def Let_def is_ascii_digit_def)

lemma demo_reply_blob:
  "re_search brace_pat demo_reply = Some (ascii ''{\"summary\":\"x\",\"topics\":[\"a\"]}'')"
  by (simp add: demo_reply_def brace_pat_def re_search_def ascii_def)

lemma demo_blob_strip:
  "strip (ascii ''{\"summary\":\"x\",\"topics\":[\"a\"]}'') = ascii ''{\"summary\":\"x\",\"topics\":[\"a\"]}''"
  by (simp add: strip_def strip_chars_def is_space_def ascii_def)

lemma demo_blob_loads:
  "json_loads (ascii ''{\"summary\":\"x\",\"topics\":[\"a\"]}'')
     = Some (JDict [(ascii ''summary'', JStr (ascii ''x'')), (ascii ''topics'', JList [JStr (ascii ''a'')])])"
  by (simp add: json_defs)

lemma demo_reply_parsed:
  "parse_json demo_reply
     = JDict [(ascii ''summary'', JStr (ascii ''x'')), (ascii ''topics'', JList [JStr (ascii ''a'')])]"
proof -
  have ne: "demo_reply \<noteq> []" by (simp add: demo_reply_def ascii_def)
  show ?thesis
    by (simp only: parse_json_def ne if_False demo_reply_strip demo_reply_direct demo_reply_blob
        demo_blob_strip demo_blob_loads option.case)
qed

lemma demo_reply_result:
  assumes "ollama_call L self ep (prompt_structured L txt language title False) log = (Inr demo_reply, log')"
  shows "summarize_structured_once L self ep txt language title log =
     (Inr \<lparr> summary = ascii ''x'', r_topics = [ascii ''a''], r_decisions = [], r_tasks = [],
            r_speakers = [] \<rparr>, log')"
  unfolding summarize_structured_once_def assms
  by (simp add: demo_reply_parsed Let_def)
     (simp add: ascii_def py_or_def py_str_def as_list_def strip_def strip_chars_def is_space_def)
lemma demo_body_call:
  "ollama_call L self (answering demo_body) prompt log
     = (Inr demo_reply, log @ [chat_request self prompt])"
  by (simp add: ollama_call_def post_def answering_def chat_reply_def raise_for_status_def
      response_json_def demo_body_def json_defs dict_get_def py_or_def py_str_def demo_reply_def)

text \<open>
  C6.  Parsing a reply tries the whole (stripped) text as JSON first, and takes what that
  gives; only when that fails does it look for a text from a brace to a brace and try
  that.  The reply \<open>here is json: {"summary":"x","topics":["a"]}\<close> is not JSON as a
  whole, its brace-delimited part is, and a pass that receives it returns the summary
  \<open>x\<close> and the topics \<open>[a]\<close>.
\<close>

theorem parse_json_brace_fallback:
  "(\<forall>s v. s \<noteq> [] \<and> json_loads (strip s) = Some v \<longrightarrow> parse_json s = v)
   \<and> (\<forall>s. json_loads (strip s) = None \<longrightarrow>
          parse_json s =
            (case re_search brace_pat (strip s) of
               None \<Rightarrow> JNull
             | Some blob \<Rightarrow> (case json_loads (strip blob) of None \<Rightarrow> JNull | Some v \<Rightarrow> v)))
   \<and> json_loads (strip (ascii ''here is json: {\"summary\":\"x\",\"topics\":[\"a\"]}'')) = None
   \<and> re_search brace_pat (strip (ascii ''here is json: {\"summary\":\"x\",\"topics\":[\"a\"]}''))
       = Some (ascii ''{\"summary\":\"x\",\"topics\":[\"a\"]}'')
   \<and> parse_json (ascii ''here is json: {\"summary\":\"x\",\"topics\":[\"a\"]}'')
       = JDict [(ascii ''summary'', JStr (ascii ''x'')), (ascii ''topics'', JList [JStr (ascii ''a'')])]
   \<and> (\<forall>L self ep txt language title log log'.
         ollama_call L self ep (prompt_structured L txt language title False) log
           = (Inr (ascii ''here is json: {\"summary\":\"x\",\"topics\":[\"a\"]}''), log')
         \<longrightarrow> summarize_structured_once L self ep txt language title log
           = (Inr \<lparr> summary = ascii ''x'', r_topics = [ascii ''a''], r_decisions = [],
                    r_tasks = [], r_speakers = [] \<rparr>, log'))"
proof -
  have a: "s \<noteq> [] \<and> json_loads (strip s) = Some v \<longrightarrow> parse_json s = v" for s v
    by (simp add: parse_json_def)
  have b: "json_loads (strip s) = None \<longrightarrow>
          parse_json s =
            (case re_search brace_pat (strip s) of
               None \<Rightarrow> JNull
             | Some blob \<Rightarrow> (case json_loads (strip blob) of None \<Rightarrow> JNull | Some v \<Rightarrow> v))" for s
    by (simp add: parse_json_def brace_pat_def re_search_def strip_def strip_chars_def)
  have c: "json_loads (strip demo_reply) = None"
    by (simp only: demo_reply_strip demo_reply_direct)
  have d: "re_search brace_pat (strip demo_reply) = Some (ascii ''{\"summary\":\"x\",\"topics\":[\"a\"]}'')"
    by (simp only: demo_reply_strip demo_reply_blob)
  have e: "ollama_call L self ep (prompt_structured L tx language title False) log
           = (Inr demo_reply, log')
         \<longrightarrow> summarize_structured_once L self ep tx language title log
           = (Inr \<lparr> summary = ascii ''x'', r_topics = [ascii ''a''], r_decisions = [],
                    r_tasks = [], r_speakers = [] \<rparr>, log')" for L self ep tx language title log log'
    using demo_reply_result by blast
  show ?thesis
    unfolding demo_reply_def [symmetric]
    using a b c d demo_reply_parsed e by blast
qed

theorem parse_json_brace_fallback_witness:
  "json_loads (strip (ascii ''{}'')) = Some (JDict []) \<and> parse_json (ascii ''{}'') = JDict []
   \<and> summarize_structured_once demo_lib demo_self (answering demo_body) (ascii ''hello'')
        (ascii ''en'') (ascii ''Weekly'') []
      = (Inr \<lparr> summary = ascii ''x'', r_topics = [ascii ''a''], r_decisions = [],
               r_tasks = [], r_speakers = [] \<rparr>,
         [chat_request demo_self
            (prompt_structured demo_lib (ascii ''hello'') (ascii ''en'') (ascii ''Weekly'') False)])"
proof -
  have l: "json_loads (strip (ascii ''{}'')) = Some (JDict [])"
    by (simp add: json_defs strip_def strip_chars_def is_space_def)
  have n: "ascii ''{}'' \<noteq> []" by (simp add: ascii_def)
  have c: "ollama_call demo_lib demo_self (answering demo_body)
             (prompt_structured demo_lib (ascii ''hello'') (ascii ''en'') (ascii ''Weekly'') False) []
           = (Inr (ascii ''here is json: {\"summary\":\"x\",\"topics\":[\"a\"]}''),
              [chat_request demo_self
                 (prompt_structured demo_lib (ascii ''hello'') (ascii ''en'') (ascii ''Weekly'') False)])"
    by (simp add: demo_body_call demo_reply_def)
  show ?thesis
    using parse_json_brace_fallback l n c by blast
qed

section \<open>Replies without a structured result\<close>

lemma summarize_chunk_unstructured:
  assumes "ollama_call L self ep (prompt_structured L ch language title True) log = (Inr out, log')"
    and "\<not> truthy (parse_json out)"
  shows "summarize_chunk L self ep ch language title log = (Inr (fallback_summary ch), log')"
  using assms by (simp add: summarize_chunk_def)

lemma summarize_once_unstructured:
  assumes "ollama_call L self ep (prompt_structured L tx language title False) log = (Inr out, log')"
    and "\<not> truthy (parse_json out)"
  shows "summarize_structured_once L self ep tx language title log
           = (Inr (empty_result (fallback_summary tx)), log')"
  using assms by (simp add: summarize_structured_once_def)

lemma summarize_chunks_unstructured:
  assumes "\<forall>prompt lg. \<exists>out lg'. ollama_call L self ep prompt lg = (Inr out, lg')
             \<and> \<not> truthy (parse_json out)"
  shows "\<exists>log'. summarize_chunks L self ep language title idx chs log
           = (Inr (map fallback_summary chs), log')"
proof (induction chs arbitrary: idx log)
  case Nil
  then show ?case by simp
next
  case (Cons ch chs)
  obtain out lg' where
    c: "ollama_call L self ep (prompt_structured L ch language (chunk_title title idx) True) log
          = (Inr out, lg')" and n: "\<not> truthy (parse_json out)"
    using assms by blast
  have s: "summarize_chunk L self ep ch language (chunk_title title idx) log
             = (Inr (fallback_summary ch), lg')"
    using summarize_chunk_unstructured [OF c n] .
  obtain log'' where
    r: "summarize_chunks L self ep language title (Suc idx) chs lg'
          = (Inr (map fallback_summary chs), log'')"
    using Cons.IH by blast
  show ?case by (simp add: s r)
qed

lemma summarize_structured_unstructured:
  assumes h: "\<forall>prompt lg. \<exists>out lg'. ollama_call L self ep prompt lg = (Inr out, lg')
             \<and> \<not> truthy (parse_json out)"
    and ne: "strip t \<noteq> []"
  shows "\<exists>log'. summarize_structured L self ep t title language log =
           (Inr (empty_result (fallback_summary
              (if length (strip t) > 12000
               then join [10, 10] (map fallback_summary (chunk_text (strip t) 6000 6))
               else strip t))), log')"
proof (cases "length (strip t) > 12000")
  case True
  obtain l1 where
    c: "summarize_chunks L self ep language title (Suc 0) (chunk_text (strip t) 6000 6) log
          = (Inr (map fallback_summary (chunk_text (strip t) 6000 6)), l1)"
    using summarize_chunks_unstructured [OF h] by blast
  obtain out l2 where
    o: "ollama_call L self ep
          (prompt_structured L (join [10, 10] (map fallback_summary (chunk_text (strip t) 6000 6)))
             language title False) l1 = (Inr out, l2)" and n: "\<not> truthy (parse_json out)"
    using h by blast
  show ?thesis
    using True ne by (simp add: summarize_structured_def Let_def c summarize_once_unstructured [OF o n])
next
  case False
  obtain out l2 where
    o: "ollama_call L self ep (prompt_structured L (strip t) language title False) log = (Inr out, l2)"
    and n: "\<not> truthy (parse_json out)"
    using h by blast
  show ?thesis
    using False ne by (simp add: summarize_structured_def Let_def summarize_once_unstructured [OF o n])
qed

subsection \<open>Evaluating long inputs\<close>

lemma strip_id:
  assumes "s \<noteq> []" "\<not> is_space (hd s)" "\<not> is_space (last s)"
  shows "strip s = s"
proof -
  have a: "dropWhile is_space s = s" using assms(1,2) by (cases s) auto
  have b: "dropWhile is_space (rev s) = rev s"
    using assms(1,3) by (cases "rev s") (auto simp: last_rev [symmetric] hd_rev)
  show ?thesis by (simp add: strip_def strip_chars_def a b)
qed

lemma re_scan_no_match:
  assumes "\<forall>c\<in>set s. \<forall>pv cs. rx_m r (pv, c # cs, []) = []"
  shows "re_scan r pv acc (s @ rest) = re_scan r (if s = [] then pv else Some (last s)) (acc @ s) rest"
  using assms
proof (induction s arbitrary: pv acc)
  case Nil
  then show ?case by simp
next
  case (Cons c s)
  have m: "rx_m r (pv, c # (s @ rest), []) = []" using Cons.prems by simp
  have "re_scan r pv acc ((c # s) @ rest) = re_scan r (Some c) (acc @ [c]) (s @ rest)"
    by (simp add: m)
  also have "\<dots> = re_scan r (if s = [] then Some c else Some (last s)) ((acc @ [c]) @ s) rest"
    using Cons.IH [of "Some c" "acc @ [c]"] Cons.prems by simp
  finally show ?case by simp
qed

lemma chunk_sep_no_match:
  "c \<noteq> 10 \<Longrightarrow> \<not> is_stop_mark c \<Longrightarrow> rx_m chunk_sep (pv, c # cs, []) = []"
  by (simp add: chunk_sep_def)

lemma chunk_sep_stop:
  "is_stop_mark c \<Longrightarrow> rx_m chunk_sep (pv, c # cs, []) = [(Some c, cs, [(1, [c])])]"
  by (auto simp: chunk_sep_def is_stop_mark_def)

lemma fallback_sep_no_match:
  "\<not> is_space c \<Longrightarrow> rx_m fallback_sep (pv, c # cs, []) = []"
  by (cases pv) (auto simp: fallback_sep_def)

lemma re_scan_replicate:
  assumes "\<And>pv cs. rx_m r (pv, x # cs, []) = []"
  shows "re_scan r pv acc (replicate n x) = ([], acc @ replicate n x)"
  using re_scan_no_match [of "replicate n x" r pv acc "[]"] assms by simp

lemma rep_run_replicate:
  "\<not> p x \<Longrightarrow> rep_run p lo hi (pv, replicate n x, g)
     = (if lo = 0 then [(pv, replicate n x, g)] else [])"
  by (cases n) auto

lemma long_text_strip: "strip long_text = long_text"
  by (rule strip_id) (simp_all add: long_text_def ascii_def is_space_def)

lemma long_text_length: "length long_text = 12002"
  by (simp add: long_text_def ascii_def)

lemma long_text_tokens:
  "re_split_group chunk_sep long_text = [ascii ''a'', ascii ''.'', replicate 12000 98]"
proof -
  have t: "re_scan chunk_sep pv acc (replicate 12000 98) = ([], acc @ replicate 12000 98)" for pv acc
    by (rule re_scan_replicate) (simp add: chunk_sep_no_match is_stop_mark_def)
  have "re_scan chunk_sep None [] long_text
          = ([(ascii ''a'', ascii ''.'', [(1, ascii ''.'')])], replicate 12000 98)"
    by (simp add: long_text_def ascii_def t chunk_sep_no_match chunk_sep_stop is_stop_mark_def)
  then show ?thesis by (simp add: re_split_group_def)
qed

lemma strip_bees: "strip (replicate (Suc n) 98) = replicate (Suc n) 98"
  by (rule strip_id) (simp_all add: is_space_def)

lemma long_text_chunks:
  "chunk_text long_text 6000 6 = [ascii ''a .'', replicate 12000 98]"
proof -
  have s: "strip (replicate 12000 98) = replicate 12000 98"
    using strip_bees [of 11999] by simp
  have n: "replicate 12000 (98::nat) \<noteq> []" by simp
  have s1: "strip (ascii ''a'') = ascii ''a''" "strip (ascii ''.'') = ascii ''.''"
      "strip (ascii ''a .'') = ascii ''a .''"
    by (simp_all add: strip_def strip_chars_def ascii_def is_space_def)
  have a1: "ascii ''a'' \<noteq> []" "ascii ''.'' \<noteq> []" "ascii ''a .'' \<noteq> []"
     "length (ascii ''a'') = 1" "length (ascii ''.'') = 1" 
     "ascii ''a'' @ ascii '' '' @ ascii ''.'' = ascii ''a .''"
    by (simp_all add: ascii_def)
  show ?thesis
    by (simp add: chunk_text_def long_text_tokens chunk_tokens_def flush_def s n s1 a1 Let_def)
qed

lemma fallback_sep_eval:
  "rx_m fallback_sep (pv, s, []) =
     (case pv of
        None \<Rightarrow> []
      | Some p \<Rightarrow> if is_stop_mark p then rep_run is_space 1 None (pv, s, []) else [])"
  by (cases pv) (auto simp: fallback_sep_def)

lemma fallback_bees_scan:
  "re_scan fallback_sep pv acc (replicate n 98) = ([], acc @ replicate n 98)"
  by (rule re_scan_replicate) (simp add: fallback_sep_no_match is_space_def)

lemma fallback_short: "fallback_summary (ascii ''a .'') = ascii ''a .''"
  by (simp add: fallback_summary_def re_split_def fallback_sep_eval ascii_def strip_def
      strip_chars_def is_space_def is_stop_mark_def)

lemma fallback_bees: "fallback_summary (replicate 12000 98) = replicate 1200 98"
proof -
  have s: "strip (replicate 12000 98) = replicate 12000 98"
    using strip_bees [of 11999] by simp
  show ?thesis
    unfolding fallback_summary_def s re_split_def fallback_bees_scan
    by (simp add: s)
qed

lemma fallback_merged:
  "fallback_summary (join [10, 10] [ascii ''a .'', replicate 1200 98])
     = ascii ''a . '' @ replicate 1196 98"
proof -
  have m: "join [10, 10] [ascii ''a .'', replicate 1200 98] = 97 # 32 # 46 # 10 # 10 # replicate 1200 98"
    by (simp add: ascii_def)
  have s: "strip (97 # 32 # 46 # 10 # 10 # replicate 1200 98) = 97 # 32 # 46 # 10 # 10 # replicate 1200 98"
    by (rule strip_id) (simp_all add: is_space_def)
  have b: "strip (replicate 1200 98) = replicate 1200 98"
    using strip_bees [of 1199] by simp
  have sc: "re_scan fallback_sep None [] (97 # 32 # 46 # 10 # 10 # replicate 1200 98)
              = ([([97, 32, 46], [10, 10], [])], replicate 1200 98)"
    by (simp add: fallback_sep_eval rep_run_replicate is_space_def is_stop_mark_def
        fallback_bees_scan)
  have a: "strip [97, 32, 46] = [97, 32, 46]"
    by (simp add: strip_def strip_chars_def is_space_def)
  show ?thesis
    unfolding m fallback_summary_def s re_split_def sc
    by (simp add: a b ascii_def)
qed

lemma fallback_long_text: "fallback_summary long_text = ascii ''a.'' @ replicate 1198 98"
proof -
  have sc: "re_scan fallback_sep None [] long_text = ([], long_text)"
    by (simp add: long_text_def ascii_def fallback_sep_no_match is_space_def fallback_bees_scan)
  show ?thesis
    unfolding fallback_summary_def long_text_strip re_split_def sc
    by (simp add: long_text_strip) (simp add: long_text_def ascii_def)
qed

lemma json_loads_Nil: "json_loads [] = None"
  by (simp add: json_loads_def skip_ws_def)

lemma fallback_summary_Nil: "fallback_summary [] = []"
  by (simp add: fallback_summary_def strip_def strip_chars_def re_split_def)

lemma oops_call:
  "ollama_call L self (answering oops_body) prompt lg
     = (Inr (ascii ''oops''), lg @ [chat_request self prompt])"
  by (simp add: ollama_call_def post_def answering_def chat_reply_def raise_for_status_def
      response_json_def oops_body_def json_defs dict_get_def py_or_def py_str_def)

lemma oops_parse: "parse_json (ascii ''oops'') = JNull"
  by (simp add: parse_json_def json_defs strip_def strip_chars_def is_space_def scan_number_def
      Let_def is_ascii_digit_def brace_pat_def re_search_def)

lemma empty_object_call:
  "ollama_call L self (answering empty_object_body) prompt lg
     = (Inr (ascii ''{}''), lg @ [chat_request self prompt])"
  by (simp add: ollama_call_def post_def answering_def chat_reply_def raise_for_status_def
      response_json_def empty_object_body_def json_defs dict_get_def py_or_def py_str_def)

lemma empty_object_loads: "json_loads (strip (ascii ''{}'')) = Some (JDict [])"
  by (simp add: json_defs strip_def strip_chars_def is_space_def)

lemma demo_fallback: "fallback_summary (strip (ascii ''Hi. Bye.'')) = ascii ''Hi. Bye.''"
  by (simp add: fallback_summary_def re_split_def fallback_sep_eval ascii_def strip_def
      strip_chars_def is_space_def is_stop_mark_def)

lemma parse_json_of_loads:
  assumes "json_loads (strip out) = Some v"
  shows "parse_json out = v"
proof -
  have "out \<noteq> []" using assms by (auto simp: strip_def strip_chars_def json_loads_Nil)
  then show ?thesis using assms by (simp add: parse_json_def)
qed

lemma parse_json_nothing:
  assumes "out = [] \<or> (json_loads (strip out) = None
             \<and> (case re_search brace_pat (strip out) of
                   None \<Rightarrow> True
                 | Some blob \<Rightarrow> json_loads (strip blob) = None))"
  shows "parse_json out = JNull"
  using assms by (auto simp: parse_json_def split: option.splits)

lemma summarize_structured_short:
  assumes "strip t \<noteq> []" and "length (strip t) \<le> 12000"
  shows "summarize_structured L self ep t title language log
           = summarize_structured_once L self ep (strip t) language title log"
  using assms by (simp add: summarize_structured_def Let_def)

lemma summarize_structured_long:
  assumes "length (strip t) > 12000"
    and "summarize_chunks L self ep language title 1 (chunk_text (strip t) 6000 6) log
           = (Inr sums, log1)"
  shows "summarize_structured L self ep t title language log
           = summarize_structured_once L self ep (join [10, 10] sums) language title log1"
proof -
  have "strip t \<noteq> []" using assms(1) by auto
  then show ?thesis using assms by (simp add: summarize_structured_def Let_def)
qed

lemma summarize_chunks_step:
  assumes "summarize_chunk L self ep ch language (chunk_title title idx) lg = (Inr s, lg')"
  shows "summarize_chunks L self ep language title idx (ch # chs) lg
           = (case summarize_chunks L self ep language title (idx + 1) chs lg' of
                (Inl e, l) \<Rightarrow> (Inl e, l)
              | (Inr ss, l) \<Rightarrow> (Inr (s # ss), l))"
  using assms by simp

lemma length_fallback_summary: "length (fallback_summary tx) \<le> 1200"
  by (simp add: fallback_summary_def)

lemma six_sentences_strip:
  "strip (ascii ''One. Two. Three. Four. Five. Six.'') = ascii ''One. Two. Three. Four. Five. Six.''"
  by (simp add: strip_def strip_chars_def is_space_def ascii_def)

lemma six_sentences_fallback:
  "fallback_summary (ascii ''One. Two. Three. Four. Five. Six.'')
     = ascii ''One. Two. Three. Four. Five.''"
  by (simp add: fallback_summary_def re_split_def fallback_sep_eval ascii_def strip_def
      strip_chars_def is_space_def is_stop_mark_def)

lemma two_sentences_strip: "strip (ascii ''Hi. Bye.'') = ascii ''Hi. Bye.''"
  by (simp add: strip_def strip_chars_def is_space_def ascii_def)

text \<open>
  C1.  A reply is one \<open>_parse_json\<close> gets nothing from when it is empty, or when neither
  the stripped reply nor its brace-delimited part is JSON.  Whenever the reply received
  in a pass is of that kind, the pass raises nothing, asks nothing more and degrades to
  the extractive fallback of the text it was given: \<open>summarize_structured\<close> returns a
  result whose four lists are empty and whose summary is the fallback of the text of the
  final pass.  That text is the stripped transcript when it has at most 12,000
  characters; for a longer one it is the summaries of the chunks, joined by blank lines,
  and a chunk whose reply is of that kind contributes the fallback of the chunk as its
  summary.  The fallback has at most 1,200 characters.
\<close>

theorem unparseable_reply_degrades:
  "(reply = [] \<or> (json_loads (strip reply) = None
        \<and> (case re_search brace_pat (strip reply) of
              None \<Rightarrow> True
            | Some blob \<Rightarrow> json_loads (strip blob) = None))
      \<longrightarrow> parse_json reply = JNull)
   \<and> (strip t \<noteq> [] \<and> length (strip t) \<le> 12000
        \<and> ollama_call L self ep (prompt_structured L (strip t) language title False) log
            = (Inr out, log')
        \<and> parse_json out = JNull
      \<longrightarrow> summarize_structured L self ep t title language log
            = (Inr \<lparr> summary = fallback_summary (strip t),
                     r_topics = [], r_decisions = [], r_tasks = [], r_speakers = [] \<rparr>, log'))
   \<and> (length (strip t) > 12000
        \<and> summarize_chunks L self ep language title 1 (chunk_text (strip t) 6000 6) log
            = (Inr sums, log1)
        \<and> ollama_call L self ep (prompt_structured L (join [10, 10] sums) language title False) log1
            = (Inr out, log')
        \<and> parse_json out = JNull
      \<longrightarrow> summarize_structured L self ep t title language log
            = (Inr \<lparr> summary = fallback_summary (join [10, 10] sums),
                     r_topics = [], r_decisions = [], r_tasks = [], r_speakers = [] \<rparr>, log'))
   \<and> (ollama_call L self ep (prompt_structured L ch language (chunk_title title idx) True) lg
            = (Inr outc, lg')
        \<and> parse_json outc = JNull
      \<longrightarrow> summarize_chunk L self ep ch language (chunk_title title idx) lg
            = (Inr (fallback_summary ch), lg')
          \<and> summarize_chunks L self ep language title idx (ch # chs) lg
            = (case summarize_chunks L self ep language title (idx + 1) chs lg' of
                 (Inl e, l) \<Rightarrow> (Inl e, l)
               | (Inr ss, l) \<Rightarrow> (Inr (fallback_summary ch # ss), l)))
   \<and> length (fallback_summary tx) \<le> 1200"
proof -
  have a: "parse_json reply = JNull"
    if "reply = [] \<or> (json_loads (strip reply) = None
        \<and> (case re_search brace_pat (strip reply) of
              None \<Rightarrow> True
            | Some blob \<Rightarrow> json_loads (strip blob) = None))"
    using parse_json_nothing [OF that] .
  have b: "summarize_structured L self ep t title language log
            = (Inr \<lparr> summary = fallback_summary (strip t),
                     r_topics = [], r_decisions = [], r_tasks = [], r_speakers = [] \<rparr>, log')"
    if "strip t \<noteq> []" "length (strip t) \<le> 12000"
      "ollama_call L self ep (prompt_structured L (strip t) language title False) log
         = (Inr out, log')"
      "parse_json out = JNull"
  proof -
    have n: "\<not> truthy (parse_json out)" using that(4) by simp
    show ?thesis
      unfolding summarize_structured_short [OF that(1) that(2)]
        summarize_once_unstructured [OF that(3) n]
      by (simp add: empty_result_def)
  qed
  have c: "summarize_structured L self ep t title language log
            = (Inr \<lparr> summary = fallback_summary (join [10, 10] sums),
                     r_topics = [], r_decisions = [], r_tasks = [], r_speakers = [] \<rparr>, log')"
    if "length (strip t) > 12000"
      "summarize_chunks L self ep language title 1 (chunk_text (strip t) 6000 6) log
         = (Inr sums, log1)"
      "ollama_call L self ep (prompt_structured L (join [10, 10] sums) language title False) log1
         = (Inr out, log')"
      "parse_json out = JNull"
  proof -
    have n: "\<not> truthy (parse_json out)" using that(4) by simp
    show ?thesis
      unfolding summarize_structured_long [OF that(1) that(2)]
        summarize_once_unstructured [OF that(3) n]
      by (simp add: empty_result_def)
  qed
  have d: "summarize_chunk L self ep ch language (chunk_title title idx) lg
            = (Inr (fallback_summary ch), lg')
          \<and> summarize_chunks L self ep language title idx (ch # chs) lg
            = (case summarize_chunks L self ep language title (idx + 1) chs lg' of
                 (Inl e, l) \<Rightarrow> (Inl e, l)
               | (Inr ss, l) \<Rightarrow> (Inr (fallback_summary ch # ss), l))"
    if "ollama_call L self ep (prompt_structured L ch language (chunk_title title idx) True) lg
          = (Inr outc, lg')"
      "parse_json outc = JNull"
  proof -
    have n: "\<not> truthy (parse_json outc)" using that(2) by simp
    have s: "summarize_chunk L self ep ch language (chunk_title title idx) lg
               = (Inr (fallback_summary ch), lg')"
      using summarize_chunk_unstructured [OF that(1) n] .
    show ?thesis using s summarize_chunks_step [OF s] by (rule conjI)
  qed
  show ?thesis
    using a b c d length_fallback_summary by (intro conjI impI) blast+
qed

theorem unparseable_reply_degrades_witness:
  "parse_json (ascii ''oops'') = JNull
   \<and> summarize_structured demo_lib demo_self (answering oops_body)
       (ascii ''One. Two. Three. Four. Five. Six.'') (ascii ''Weekly'') (ascii ''en'') []
     = (Inr \<lparr> summary = ascii ''One. Two. Three. Four. Five.'', r_topics = [], r_decisions = [],
              r_tasks = [], r_speakers = [] \<rparr>,
        [chat_request demo_self
           (prompt_structured demo_lib (ascii ''One. Two. Three. Four. Five. Six.'')
              (ascii ''en'') (ascii ''Weekly'') False)])
   \<and> summarize_chunk demo_lib demo_self (answering oops_body) (ascii ''Hi. Bye.'') (ascii ''en'')
       (chunk_title (ascii ''Weekly'') 1) []
     = (Inr (ascii ''Hi. Bye.''),
        [chat_request demo_self
           (prompt_structured demo_lib (ascii ''Hi. Bye.'') (ascii ''en'')
              (chunk_title (ascii ''Weekly'') 1) True)])"
proof -
  have n: "strip (ascii ''One. Two. Three. Four. Five. Six.'') \<noteq> []"
    unfolding six_sentences_strip by (simp add: ascii_def)
  have l: "length (strip (ascii ''One. Two. Three. Four. Five. Six.'')) \<le> 12000"
    unfolding six_sentences_strip by (simp add: ascii_def)
  have o: "ollama_call demo_lib demo_self (answering oops_body)
             (prompt_structured demo_lib (strip (ascii ''One. Two. Three. Four. Five. Six.''))
                (ascii ''en'') (ascii ''Weekly'') False) []
           = (Inr (ascii ''oops''),
              [chat_request demo_self
                 (prompt_structured demo_lib (ascii ''One. Two. Three. Four. Five. Six.'')
                    (ascii ''en'') (ascii ''Weekly'') False)])"
    unfolding six_sentences_strip oops_call by simp
  have o1: "ollama_call demo_lib demo_self (answering oops_body)
             (prompt_structured demo_lib (ascii ''Hi. Bye.'') (ascii ''en'')
                (chunk_title (ascii ''Weekly'') 1) True) []
           = (Inr (ascii ''oops''),
              [chat_request demo_self
                 (prompt_structured demo_lib (ascii ''Hi. Bye.'') (ascii ''en'')
                    (chunk_title (ascii ''Weekly'') 1) True)])"
    unfolding oops_call by simp
  have f1: "fallback_summary (ascii ''Hi. Bye.'') = ascii ''Hi. Bye.''"
    using demo_fallback unfolding two_sentences_strip .
  note th = unparseable_reply_degrades [where t = "ascii ''One. Two. Three. Four. Five. Six.''"
      and L = demo_lib and self = demo_self and ep = "answering oops_body"
      and language = "ascii ''en''" and title = "ascii ''Weekly''" and log = "[]"
      and out = "ascii ''oops''" and outc = "ascii ''oops''" and ch = "ascii ''Hi. Bye.''"
      and idx = 1 and lg = "[]"
      and log' = "[chat_request demo_self
                 (prompt_structured demo_lib (ascii ''One. Two. Three. Four. Five. Six.'')
                    (ascii ''en'') (ascii ''Weekly'') False)]"
      and lg' = "[chat_request demo_self
                 (prompt_structured demo_lib (ascii ''Hi. Bye.'') (ascii ''en'')
                    (chunk_title (ascii ''Weekly'') 1) True)]"]
  have r1: "summarize_structured demo_lib demo_self (answering oops_body)
       (ascii ''One. Two. Three. Four. Five. Six.'') (ascii ''Weekly'') (ascii ''en'') []
     = (Inr \<lparr> summary = fallback_summary (strip (ascii ''One. Two. Three. Four. Five. Six.'')),
              r_topics = [], r_decisions = [], r_tasks = [], r_speakers = [] \<rparr>,
        [chat_request demo_self
           (prompt_structured demo_lib (ascii ''One. Two. Three. Four. Five. Six.'')
              (ascii ''en'') (ascii ''Weekly'') False)])"
    by (rule th [THEN conjunct2, THEN conjunct1, rule_format])
      (intro conjI, rule n, rule l, rule o, rule oops_parse)
  have r2: "summarize_chunk demo_lib demo_self (answering oops_body) (ascii ''Hi. Bye.'') (ascii ''en'')
       (chunk_title (ascii ''Weekly'') 1) []
     = (Inr (fallback_summary (ascii ''Hi. Bye.'')),
        [chat_request demo_self
           (prompt_structured demo_lib (ascii ''Hi. Bye.'') (ascii ''en'')
              (chunk_title (ascii ''Weekly'') 1) True)])"
    by (rule th [THEN conjunct2, THEN conjunct2, THEN conjunct2, THEN conjunct1, rule_format,
          THEN conjunct1])
      (intro conjI, rule o1, rule oops_parse)
  show ?thesis
    using oops_parse r1 r2 unfolding six_sentences_strip six_sentences_fallback f1
    by (intro conjI)
qed

theorem unparseable_long_counterexample:
  "chat_reply demo_lib (Response 200 oops_body) = Inr (ascii ''oops'')
   \<and> parse_json (ascii ''oops'') = JNull
   \<and> length (ascii ''a.'' @ replicate 12000 98) = 12002
   \<and> fst (summarize_structured demo_lib demo_self (answering oops_body)
           (ascii ''a.'' @ replicate 12000 98) (ascii ''Weekly'') (ascii ''en'') [])
     = Inr \<lparr> summary = ascii ''a . '' @ replicate 1196 98, r_topics = [], r_decisions = [],
             r_tasks = [], r_speakers = [] \<rparr>
   \<and> fallback_summary (ascii ''a.'' @ replicate 12000 98) = ascii ''a.'' @ replicate 1198 98
   \<and> ascii ''a . '' @ replicate 1196 98 \<noteq> ascii ''a.'' @ replicate 1198 98"
proof -
  have r: "chat_reply demo_lib (Response 200 oops_body) = Inr (ascii ''oops'')"
    by (simp add: chat_reply_def raise_for_status_def response_json_def oops_body_def json_defs
        dict_get_def py_or_def py_str_def)
  have h: "\<forall>prompt lg. \<exists>out lg'. ollama_call demo_lib demo_self (answering oops_body) prompt lg
             = (Inr out, lg') \<and> \<not> truthy (parse_json out)"
    by (simp add: oops_call oops_parse)
  have ne: "strip long_text \<noteq> []" by (simp add: long_text_strip) (simp add: long_text_def ascii_def)
  have m: "map fallback_summary (chunk_text long_text 6000 6)
             = [ascii ''a .'', replicate 1200 98]"
    by (simp add: long_text_chunks fallback_short fallback_bees)
  have f: "fallback_summary (join [10, 10] (map fallback_summary (chunk_text long_text 6000 6)))
             = ascii ''a . '' @ replicate 1196 98"
    by (simp only: m fallback_merged)
  have s: "fst (summarize_structured demo_lib demo_self (answering oops_body) long_text
             (ascii ''Weekly'') (ascii ''en'') [])
           = Inr (empty_result (ascii ''a . '' @ replicate 1196 98))"
    using summarize_structured_unstructured [OF h ne, of "ascii ''Weekly''" "ascii ''en''" "[]"]
    by (auto simp: long_text_strip long_text_length f)
  have d: "ascii ''a . '' @ replicate 1196 98 \<noteq> ascii ''a.'' @ replicate 1198 98"
    by (simp add: ascii_def)
  show ?thesis
    using r oops_parse long_text_length s fallback_long_text d
    by (simp add: long_text_def empty_result_def)
qed

text \<open>
  C9.  A reply that is JSON but whose value Python counts as false is treated as a reply
  that did not parse.  The reply \<open>{}\<close> is such a one: \<open>json.loads\<close> succeeds on it with the
  empty object.  Whenever the reply received in a pass is of this kind, the pass asks
  nothing more and degrades to the extractive fallback of the text it was given, with four
  empty lists: in \<open>_summarize_structured_once\<close>, hence in \<open>summarize_structured\<close> on a
  transcript of at most 12,000 characters after stripping and in the final pass over the
  chunk summaries of a longer one, and in \<open>_summarize_chunk\<close>.  The value returned is the
  one returned for a reply from which \<open>_parse_json\<close> gets nothing.
\<close>

theorem falsy_reply_is_fallback:
  "json_loads (strip (ascii ''{}'')) = Some (JDict [])
   \<and> \<not> truthy (JDict [])
   \<and> parse_json (ascii ''{}'') = JDict []
   \<and> (\<forall>L self ep tx language title log out log' v.
         ollama_call L self ep (prompt_structured L tx language title False) log = (Inr out, log')
         \<and> json_loads (strip out) = Some v \<and> \<not> truthy v
         \<longrightarrow> summarize_structured_once L self ep tx language title log
             = (Inr \<lparr> summary = fallback_summary tx,
                      r_topics = [], r_decisions = [], r_tasks = [], r_speakers = [] \<rparr>, log'))
   \<and> (\<forall>L self ep t language title log out log' v.
         strip t \<noteq> [] \<and> length (strip t) \<le> 12000
         \<and> ollama_call L self ep (prompt_structured L (strip t) language title False) log
             = (Inr out, log')
         \<and> json_loads (strip out) = Some v \<and> \<not> truthy v
         \<longrightarrow> summarize_structured L self ep t title language log
             = (Inr \<lparr> summary = fallback_summary (strip t),
                      r_topics = [], r_decisions = [], r_tasks = [], r_speakers = [] \<rparr>, log'))
   \<and> (\<forall>L self ep t language title log sums log1 out log' v.
         length (strip t) > 12000
         \<and> summarize_chunks L self ep language title 1 (chunk_text (strip t) 6000 6) log
             = (Inr sums, log1)
         \<and> ollama_call L self ep (prompt_structured L (join [10, 10] sums) language title False) log1
             = (Inr out, log')
         \<and> json_loads (strip out) = Some v \<and> \<not> truthy v
         \<longrightarrow> summarize_structured L self ep t title language log
             = (Inr \<lparr> summary = fallback_summary (join [10, 10] sums),
                      r_topics = [], r_decisions = [], r_tasks = [], r_speakers = [] \<rparr>, log'))
   \<and> (\<forall>L self ep ch language title lg out lg' v.
         ollama_call L self ep (prompt_structured L ch language title True) lg = (Inr out, lg')
         \<and> json_loads (strip out) = Some v \<and> \<not> truthy v
         \<longrightarrow> summarize_chunk L self ep ch language title lg = (Inr (fallback_summary ch), lg'))
   \<and> (\<forall>L self ep ep' tx language title log lg out log' v out' lg'.
         ollama_call L self ep (prompt_structured L tx language title False) log = (Inr out, log')
         \<and> json_loads (strip out) = Some v \<and> \<not> truthy v
         \<and> ollama_call L self ep' (prompt_structured L tx language title False) lg = (Inr out', lg')
         \<and> parse_json out' = JNull
         \<longrightarrow> fst (summarize_structured_once L self ep tx language title log)
             = fst (summarize_structured_once L self ep' tx language title lg))"
proof -
  have p: "parse_json (ascii ''{}'') = JDict []"
    by (simp add: parse_json_def empty_object_loads) (simp add: ascii_def)
  have n: "\<not> truthy (parse_json out)" if "json_loads (strip out) = Some v" "\<not> truthy v"
    for out v
    using parse_json_of_loads [OF that(1)] that(2) by simp
  have once: "summarize_structured_once L self ep tx language title log
             = (Inr \<lparr> summary = fallback_summary tx,
                      r_topics = [], r_decisions = [], r_tasks = [], r_speakers = [] \<rparr>, log')"
    if "ollama_call L self ep (prompt_structured L tx language title False) log = (Inr out, log')"
      "\<not> truthy (parse_json out)"
    for L self ep tx language title log out log'
    unfolding summarize_once_unstructured [OF that] by (simp add: empty_result_def)
  have c4: "summarize_structured_once L self ep tx language title log
             = (Inr \<lparr> summary = fallback_summary tx,
                      r_topics = [], r_decisions = [], r_tasks = [], r_speakers = [] \<rparr>, log')"
    if "ollama_call L self ep (prompt_structured L tx language title False) log = (Inr out, log')
         \<and> json_loads (strip out) = Some v \<and> \<not> truthy v"
    for L self ep tx language title log out log' v
    using once that n by blast
  have c5: "summarize_structured L self ep t title language log
             = (Inr \<lparr> summary = fallback_summary (strip t),
                      r_topics = [], r_decisions = [], r_tasks = [], r_speakers = [] \<rparr>, log')"
    if h: "strip t \<noteq> [] \<and> length (strip t) \<le> 12000
         \<and> ollama_call L self ep (prompt_structured L (strip t) language title False) log
             = (Inr out, log')
         \<and> json_loads (strip out) = Some v \<and> \<not> truthy v"
    for L self ep t language title log out log' v
  proof -
    have s: "summarize_structured L self ep t title language log
           = summarize_structured_once L self ep (strip t) language title log"
      using summarize_structured_short h by blast
    show ?thesis unfolding s using c4 h by blast
  qed
  have c6: "summarize_structured L self ep t title language log
             = (Inr \<lparr> summary = fallback_summary (join [10, 10] sums),
                      r_topics = [], r_decisions = [], r_tasks = [], r_speakers = [] \<rparr>, log')"
    if h: "length (strip t) > 12000
         \<and> summarize_chunks L self ep language title 1 (chunk_text (strip t) 6000 6) log
             = (Inr sums, log1)
         \<and> ollama_call L self ep (prompt_structured L (join [10, 10] sums) language title False) log1
             = (Inr out, log')
         \<and> json_loads (strip out) = Some v \<and> \<not> truthy v"
    for L self ep t language title log sums log1 out log' v
  proof -
    have s: "summarize_structured L self ep t title language log
           = summarize_structured_once L self ep (join [10, 10] sums) language title log1"
      using summarize_structured_long h by blast
    show ?thesis unfolding s using c4 h by blast
  qed
  have c7: "summarize_chunk L self ep ch language title lg = (Inr (fallback_summary ch), lg')"
    if h: "ollama_call L self ep (prompt_structured L ch language title True) lg = (Inr out, lg')
         \<and> json_loads (strip out) = Some v \<and> \<not> truthy v"
    for L self ep ch language title lg out lg' v
    using summarize_chunk_unstructured h n by blast
  have c8: "fst (summarize_structured_once L self ep tx language title log)
             = fst (summarize_structured_once L self ep' tx language title lg)"
    if h: "ollama_call L self ep (prompt_structured L tx language title False) log = (Inr out, log')
         \<and> json_loads (strip out) = Some v \<and> \<not> truthy v
         \<and> ollama_call L self ep' (prompt_structured L tx language title False) lg = (Inr out', lg')
         \<and> parse_json out' = JNull"
    for L self ep ep' tx language title log lg out log' v out' lg'
  proof -
    have 1: "summarize_structured_once L self ep tx language title log
             = (Inr \<lparr> summary = fallback_summary tx,
                      r_topics = [], r_decisions = [], r_tasks = [], r_speakers = [] \<rparr>, log')"
      using c4 h by blast
    have m: "\<not> truthy (parse_json out')" using h by simp
    have 2: "summarize_structured_once L self ep' tx language title lg
             = (Inr \<lparr> summary = fallback_summary tx,
                      r_topics = [], r_decisions = [], r_tasks = [], r_speakers = [] \<rparr>, lg')"
      using once m h by blast
    show ?thesis unfolding 1 2 by simp
  qed
  have t: "\<not> truthy (JDict [])" by simp
  show ?thesis
    apply (intro conjI allI impI)
    subgoal by (rule empty_object_loads)
    subgoal by (rule t)
    subgoal by (rule p)
    subgoal for L self ep tx language title log out log' v by (rule c4)
    subgoal for L self ep t language title log out log' v by (rule c5)
    subgoal for L self ep t language title log sums log1 out log' v by (rule c6)
    subgoal for L self ep ch language title lg out lg' v by (rule c7)
    subgoal for L self ep ep' tx language title log lg out log' v out' lg' by (rule c8)
    done
qed

theorem falsy_reply_is_fallback_witness:
  "chat_reply demo_lib (Response 200 empty_object_body) = Inr (ascii ''{}'')
   \<and> json_loads (strip (ascii ''{}'')) = Some (JDict [])
   \<and> summarize_structured demo_lib demo_self (answering empty_object_body)
       (ascii ''Hi. Bye.'') (ascii ''Weekly'') (ascii ''en'') []
     = (Inr \<lparr> summary = ascii ''Hi. Bye.'', r_topics = [], r_decisions = [], r_tasks = [],
              r_speakers = [] \<rparr>,
        [chat_request demo_self
           (prompt_structured demo_lib (ascii ''Hi. Bye.'') (ascii ''en'') (ascii ''Weekly'') False)])
   \<and> fst (summarize_structured_once demo_lib demo_self (answering empty_object_body)
            (ascii ''Hi. Bye.'') (ascii ''en'') (ascii ''Weekly'') [])
     = fst (summarize_structured_once demo_lib demo_self (answering oops_body)
            (ascii ''Hi. Bye.'') (ascii ''en'') (ascii ''Weekly'') [])"
proof -
  have r: "chat_reply demo_lib (Response 200 empty_object_body) = Inr (ascii ''{}'')"
    by (simp add: chat_reply_def raise_for_status_def response_json_def empty_object_body_def
        json_defs dict_get_def py_or_def py_str_def)
  have ne: "strip (ascii ''Hi. Bye.'') \<noteq> []"
    unfolding two_sentences_strip by (simp add: ascii_def)
  have l: "length (strip (ascii ''Hi. Bye.'')) \<le> 12000"
    unfolding two_sentences_strip by (simp add: ascii_def)
  have o: "ollama_call demo_lib demo_self (answering empty_object_body)
             (prompt_structured demo_lib (strip (ascii ''Hi. Bye.'')) (ascii ''en'')
                (ascii ''Weekly'') False) []
           = (Inr (ascii ''{}''),
              [chat_request demo_self
                 (prompt_structured demo_lib (ascii ''Hi. Bye.'') (ascii ''en'')
                    (ascii ''Weekly'') False)])"
    unfolding two_sentences_strip empty_object_call by simp
  have o2: "ollama_call demo_lib demo_self (answering empty_object_body)
             (prompt_structured demo_lib (ascii ''Hi. Bye.'') (ascii ''en'')
                (ascii ''Weekly'') False) []
           = (Inr (ascii ''{}''),
              [chat_request demo_self
                 (prompt_structured demo_lib (ascii ''Hi. Bye.'') (ascii ''en'')
                    (ascii ''Weekly'') False)])"
    unfolding empty_object_call by simp
  have o': "ollama_call demo_lib demo_self (answering oops_body)
             (prompt_structured demo_lib (ascii ''Hi. Bye.'') (ascii ''en'')
                (ascii ''Weekly'') False) []
           = (Inr (ascii ''oops''),
              [chat_request demo_self
                 (prompt_structured demo_lib (ascii ''Hi. Bye.'') (ascii ''en'')
                    (ascii ''Weekly'') False)])"
    unfolding oops_call by simp
  have t: "\<not> truthy (JDict [])" by simp
  have r1: "summarize_structured demo_lib demo_self (answering empty_object_body)
       (ascii ''Hi. Bye.'') (ascii ''Weekly'') (ascii ''en'') []
     = (Inr \<lparr> summary = fallback_summary (strip (ascii ''Hi. Bye.'')), r_topics = [],
              r_decisions = [], r_tasks = [], r_speakers = [] \<rparr>,
        [chat_request demo_self
           (prompt_structured demo_lib (ascii ''Hi. Bye.'') (ascii ''en'') (ascii ''Weekly'') False)])"
    by (rule falsy_reply_is_fallback [THEN conjunct2, THEN conjunct2, THEN conjunct2,
          THEN conjunct2, THEN conjunct1, rule_format])
      (intro conjI, rule ne, rule l, rule o, rule empty_object_loads, rule t)
  have r2: "fst (summarize_structured_once demo_lib demo_self (answering empty_object_body)
            (ascii ''Hi. Bye.'') (ascii ''en'') (ascii ''Weekly'') [])
     = fst (summarize_structured_once demo_lib demo_self (answering oops_body)
            (ascii ''Hi. Bye.'') (ascii ''en'') (ascii ''Weekly'') [])"
    by (rule falsy_reply_is_fallback [THEN conjunct2, THEN conjunct2, THEN conjunct2,
          THEN conjunct2, THEN conjunct2, THEN conjunct2, THEN conjunct2, rule_format])
      (intro conjI, rule o2, rule empty_object_loads, rule t, rule o', rule oops_parse)
  show ?thesis
    using r empty_object_loads r1 r2 unfolding demo_fallback by (intro conjI)
qed

section \<open>The call and its one fallback\<close>

text \<open>
  C4.  A call posts to \<open>{base_url}/api/chat\<close> first.  When that attempt succeeds nothing
  else is posted.  When it fails in any way (the post raises, the status is 404 or another
  4xx or 5xx, the body is not the JSON the code reads), exactly one more request is made,
  to \<open>{base_url}/api/generate\<close> on the same base URL, and the call ends with what that
  attempt gives: there is no further request.  If the second post raises, the call raises
  the same exception; if it answers with a 4xx or 5xx status, the call raises the
  \<open>HTTPError\<close> of that status; if it answers with any other status, the call goes on as it
  does for status 200 with the same body.
\<close>

theorem ollama_call_one_fallback:
  "req_url (chat_request self prompt) = base_url self @ ascii ''/api/chat''
   \<and> req_url (generate_request self prompt) = base_url self @ ascii ''/api/generate''
   \<and> (\<forall>body. chat_reply L (Response 404 body) = Inl (HTTPError 404))
   \<and> (\<forall>e. chat_reply L (Raises e) = Inl e)
   \<and> (\<forall>s. chat_reply L (ep log (chat_request self prompt)) = Inr s \<longrightarrow>
          ollama_call L self ep prompt log = (Inr s, log @ [chat_request self prompt]))
   \<and> (\<forall>e. chat_reply L (ep log (chat_request self prompt)) = Inl e \<longrightarrow>
          snd (ollama_call L self ep prompt log)
            = log @ [chat_request self prompt, generate_request self prompt]
          \<and> (\<forall>e'. ep (log @ [chat_request self prompt]) (generate_request self prompt) = Raises e'
                \<longrightarrow> fst (ollama_call L self ep prompt log) = Inl e')
          \<and> (\<forall>st body. ep (log @ [chat_request self prompt]) (generate_request self prompt)
                  = Response st body \<and> 400 \<le> st \<and> st < 600
                \<longrightarrow> fst (ollama_call L self ep prompt log) = Inl (HTTPError st))
          \<and> (\<forall>st body. ep (log @ [chat_request self prompt]) (generate_request self prompt)
                  = Response st body \<and> \<not> (400 \<le> st \<and> st < 600)
                \<longrightarrow> fst (ollama_call L self ep prompt log) = generate_reply L (Response 200 body)))"
  by (auto simp: chat_request_def generate_request_def chat_reply_def generate_reply_def
      ollama_call_def post_def raise_for_status_def)

theorem ollama_call_one_fallback_witness:
  "chat_reply demo_lib (failing [] (chat_request demo_self (ascii ''p''))) = Inl (HTTPError 404)
   \<and> failing [chat_request demo_self (ascii ''p'')] (generate_request demo_self (ascii ''p''))
       = Response 500 []
   \<and> ollama_call demo_lib demo_self failing (ascii ''p'') []
       = (Inl (HTTPError 500),
          [chat_request demo_self (ascii ''p''), generate_request demo_self (ascii ''p'')])
   \<and> chat_reply demo_lib (refusing [] (chat_request demo_self (ascii ''p''))) = Inl ConnectionError
   \<and> ollama_call demo_lib demo_self refusing (ascii ''p'') []
       = (Inl ConnectionError,
          [chat_request demo_self (ascii ''p''), generate_request demo_self (ascii ''p'')])"
proof -
  have c: "chat_reply demo_lib (failing [] (chat_request demo_self (ascii ''p'')))
             = Inl (HTTPError 404)"
    by (simp add: failing_def chat_reply_def)
  have g: "failing [chat_request demo_self (ascii ''p'')] (generate_request demo_self (ascii ''p''))
             = Response 500 []"
    by (simp add: failing_def)
  have a: "snd (ollama_call demo_lib demo_self failing (ascii ''p'') [])
          = [chat_request demo_self (ascii ''p''), generate_request demo_self (ascii ''p'')]
        \<and> fst (ollama_call demo_lib demo_self failing (ascii ''p'') []) = Inl (HTTPError 500)"
    using ollama_call_one_fallback [of demo_self "ascii ''p''" demo_lib failing "[]"] c g
    by simp
  have c2: "chat_reply demo_lib (refusing [] (chat_request demo_self (ascii ''p'')))
             = Inl ConnectionError"
    by (simp add: refusing_def chat_reply_def)
  have g2: "refusing [chat_request demo_self (ascii ''p'')] (generate_request demo_self (ascii ''p''))
             = Raises ConnectionError"
    by (simp add: refusing_def)
  have b: "snd (ollama_call demo_lib demo_self refusing (ascii ''p'') [])
          = [chat_request demo_self (ascii ''p''), generate_request demo_self (ascii ''p'')]
        \<and> fst (ollama_call demo_lib demo_self refusing (ascii ''p'') []) = Inl ConnectionError"
    using ollama_call_one_fallback [of demo_self "ascii ''p''" demo_lib refusing "[]"] c2 g2
    by simp
  show ?thesis using c g a c2 b by (simp add: prod_eq_iff)
qed

theorem ollama_call_status_counterexample:
  "ambiguous [] (chat_request demo_self (ascii ''p'')) = Response 404 []
   \<and> ambiguous [chat_request demo_self (ascii ''p'')] (generate_request demo_self (ascii ''p''))
       = Response 300 (ascii ''{\"response\":\"ok\"}'')
   \<and> ollama_call demo_lib demo_self ambiguous (ascii ''p'') []
       = (Inr (ascii ''ok''),
          [chat_request demo_self (ascii ''p''), generate_request demo_self (ascii ''p'')])"
  by (simp add: ambiguous_def ollama_call_def post_def chat_reply_def generate_reply_def
      raise_for_status_def response_json_def json_defs dict_get_def py_or_def py_str_def)

section \<open>The chunks of a long transcript\<close>

lemma flush_cases:
  "flush (parts, buf, sz) = (if buf \<noteq> [] then (parts @ [strip (join (ascii '' '') buf)], [], 0) else (parts, buf, sz))"
  by (simp add: flush_def)




lemma ascii_space: "ascii '' '' = [32]"
  by (simp add: ascii_def)




lemma strip_solid:
  assumes "strip s \<noteq> []"
  shows "\<exists>c\<in>set (strip s). \<not> is_space c"
proof -
  let ?d = "dropWhile is_space (rev (dropWhile is_space s))"
  have n: "?d \<noteq> []" using assms by (simp add: strip_def strip_chars_def)
  have "\<not> is_space (hd ?d)" using hd_dropWhile [OF n] .
  moreover have "hd ?d \<in> set (strip s)"
    using n hd_in_set [OF n] by (simp add: strip_def strip_chars_def)
  ultimately show ?thesis by blast
qed

lemma solid_strip:
  assumes "c \<in> set s" "\<not> is_space c"
  shows "strip s \<noteq> []"
proof
  assume e: "strip s = []"
  then have "dropWhile is_space (rev (dropWhile is_space s)) = []"
    by (simp add: strip_def strip_chars_def)
  then have a: "\<forall>x\<in>set (dropWhile is_space s). is_space x"
    by (simp add: dropWhile_eq_Nil_conv)
  have "dropWhile is_space s = []"
  proof (rule ccontr)
    assume n: "dropWhile is_space s \<noteq> []"
    then have "\<not> is_space (hd (dropWhile is_space s))" by (rule hd_dropWhile)
    moreover have "hd (dropWhile is_space s) \<in> set (dropWhile is_space s)"
      using n by simp
    ultimately show False using a by blast
  qed
  then show False using assms by (simp add: dropWhile_eq_Nil_conv)
qed

lemma set_join: "b \<in> set buf \<Longrightarrow> set b \<subseteq> set (join sep buf)"
  by (induction sep buf rule: join.induct) auto

lemma flush_solid:
  assumes "buf \<noteq> []" "\<forall>b\<in>set buf. \<exists>c\<in>set b. \<not> is_space c"
  shows "strip (join [32] buf) \<noteq> []"
proof -
  obtain b where b: "b \<in> set buf" using assms(1) by (cases buf) auto
  obtain c where c: "c \<in> set b" "\<not> is_space c" using assms(2) b by blast
  have "c \<in> set (join [32] buf)" using set_join [OF b] c(1) by blast
  then show ?thesis using solid_strip c(2) by blast
qed

lemma chunk_loop_Cons:
  "chunk_loop cs mc (token # rest) (parts, buf, sz) =
     (if strip token = [] then chunk_loop cs mc rest (parts, buf, sz)
      else if int (sz + length (strip token) + 1) > cs then
        (if buf = [] then
           (if int (length parts) \<ge> mc then (parts, buf, sz)
            else chunk_loop cs mc rest (parts, [strip token], sz + length (strip token) + 1))
         else
           (if int (length parts) + 1 \<ge> mc then (parts @ [strip (join [32] buf)], [], 0)
            else chunk_loop cs mc rest
                   (parts @ [strip (join [32] buf)], [strip token], length (strip token) + 1)))
      else chunk_loop cs mc rest (parts, buf @ [strip token], sz + length (strip token) + 1))"
proof -
  have e: "token = [] \<Longrightarrow> strip token = []" by (simp add: strip_def strip_chars_def)
  show ?thesis using e by (auto simp: flush_cases ascii_space)
qed

lemma chunk_loop_prefix:
  "\<exists>ext. fst (chunk_loop cs mc toks (parts, buf, sz)) = parts @ ext"
proof (induction toks arbitrary: parts buf sz)
  case Nil
  then show ?case by simp
next
  case (Cons token rest)
  obtain e1 where e1: "fst (chunk_loop cs mc rest (parts, buf, sz)) = parts @ e1"
    using Cons.IH by blast
  obtain e2 where e2: "fst (chunk_loop cs mc rest
        (parts, [strip token], sz + length (strip token) + 1)) = parts @ e2"
    using Cons.IH by blast
  obtain e3 where e3: "fst (chunk_loop cs mc rest
        (parts @ [strip (join [32] buf)], [strip token], length (strip token) + 1))
        = (parts @ [strip (join [32] buf)]) @ e3"
    using Cons.IH by blast
  obtain e4 where e4: "fst (chunk_loop cs mc rest
        (parts, buf @ [strip token], sz + length (strip token) + 1)) = parts @ e4"
    using Cons.IH by blast
  show ?case
    unfolding chunk_loop_Cons using e1 e2 e3 e4 by auto
qed


lemma chunk_loop_solid:
  assumes "\<forall>p\<in>set parts. p \<noteq> []" "\<forall>b\<in>set buf. \<exists>c\<in>set b. \<not> is_space c"
  shows "case chunk_loop cs mc toks (parts, buf, sz) of
           (parts', buf', sz') \<Rightarrow>
             (\<forall>p\<in>set parts'. p \<noteq> []) \<and> (\<forall>b\<in>set buf'. \<exists>c\<in>set b. \<not> is_space c)"
  using assms
proof (induction toks arbitrary: parts buf sz)
  case Nil
  then show ?case by simp
next
  case (Cons token rest)
  show ?case
  proof (cases "strip token = []")
    case True
    then show ?thesis unfolding chunk_loop_Cons using Cons.IH [OF Cons.prems] by simp
  next
    case False
    have tk: "\<exists>c\<in>set (strip token). \<not> is_space c" using strip_solid [OF False] .
    have b1: "\<forall>b\<in>set [strip token]. \<exists>c\<in>set b. \<not> is_space c" using tk by simp
    have b2: "\<forall>b\<in>set (buf @ [strip token]). \<exists>c\<in>set b. \<not> is_space c"
      using tk Cons.prems(2) by auto
    show ?thesis
    proof (cases "buf = []")
      case True
      show ?thesis
        unfolding chunk_loop_Cons
        using False True Cons.prems Cons.IH [OF Cons.prems(1) b1] Cons.IH [OF Cons.prems(1) b2]
        by simp
    next
      case ne: False
      have p2: "\<forall>p\<in>set (parts @ [strip (join [32] buf)]). p \<noteq> []"
        using Cons.prems(1) flush_solid [OF ne Cons.prems(2)] by simp
      show ?thesis
        unfolding chunk_loop_Cons
        using False ne p2 Cons.IH [OF p2 b1] Cons.IH [OF Cons.prems(1) b2]
        by simp
    qed
  qed
qed

lemma closing_prefix:
  "\<exists>ext. closing mc (chunk_loop cs mc toks (parts, buf, sz)) = parts @ ext"
proof -
  obtain p b s where st: "chunk_loop cs mc toks (parts, buf, sz) = (p, b, s)"
    by (metis prod_cases3)
  obtain e where e: "p = parts @ e"
    using chunk_loop_prefix [of cs mc toks parts buf sz] st by auto
  show ?thesis unfolding st using e by (simp add: closing_def flush_cases)
qed

lemma chunk_tokens_closing:
  "chunk_tokens toks cs mc = closing mc (chunk_loop cs mc toks ([], [], 0))"
proof -
  obtain p b s where st: "chunk_loop cs mc toks ([], [], 0) = (p, b, s)"
    by (metis prod_cases3)
  have i: "(\<forall>x\<in>set p. x \<noteq> []) \<and> (\<forall>x\<in>set b. \<exists>c\<in>set x. \<not> is_space c)"
    using chunk_loop_solid [of "[]" "[]" cs mc toks 0] st by simp
  have f: "\<forall>x\<in>set (fst (flush (p, b, s))). x \<noteq> []"
  proof (cases "b = []")
    case True
    then show ?thesis using i by (simp add: flush_cases)
  next
    case False
    then show ?thesis using i flush_solid [OF False] by (simp add: flush_cases ascii_space)
  qed
  have "filter (\<lambda>x. x \<noteq> []) (closing mc (p, b, s)) = closing mc (p, b, s)"
    using i f by (simp add: filter_id_conv closing_def)
  then show ?thesis unfolding chunk_tokens_def Let_def st by (simp add: closing_def)
qed


lemma chunk_loop_take:
  assumes "mc \<le> mc'" "int (length parts) < mc"
  shows "closing mc (chunk_loop cs mc toks (parts, buf, sz))
           = take (nat mc) (closing mc' (chunk_loop cs mc' toks (parts, buf, sz)))"
  using assms(2)
proof (induction toks arbitrary: parts buf sz)
  case Nil
  have "Suc (length parts) \<le> nat mc" using Nil by linarith
  then show ?case using Nil assms(1) by (simp add: closing_def flush_cases)
next
  case (Cons token rest)
  show ?case
  proof (cases "buf \<noteq> [] \<and> strip token \<noteq> [] \<and> int (sz + length (strip token) + 1) > cs")
    case False
    then show ?thesis
      unfolding chunk_loop_Cons using Cons.prems assms(1) Cons.IH [OF Cons.prems] by auto
  next
    case over: True
    let ?p = "parts @ [strip (join [32] buf)]"
    show ?thesis
    proof (cases "int (length parts) + 1 \<ge> mc")
      case stop: True
      have n: "nat mc = length ?p" using stop Cons.prems by simp
      have l: "closing mc (chunk_loop cs mc (token # rest) (parts, buf, sz)) = ?p"
        unfolding chunk_loop_Cons using over stop by (simp add: closing_def)
      obtain ext where
        r: "closing mc' (chunk_loop cs mc' (token # rest) (parts, buf, sz)) = ?p @ ext"
      proof (cases "int (length parts) + 1 \<ge> mc'")
        case True
        have "closing mc' (chunk_loop cs mc' (token # rest) (parts, buf, sz)) = ?p @ []"
          unfolding chunk_loop_Cons using over True by (simp add: closing_def flush_cases)
        then show ?thesis using that by blast
      next
        case False
        obtain e where "closing mc' (chunk_loop cs mc' rest
                (?p, [strip token], length (strip token) + 1)) = ?p @ e"
          using closing_prefix by blast
        then have "closing mc' (chunk_loop cs mc' (token # rest) (parts, buf, sz)) = ?p @ e"
          unfolding chunk_loop_Cons using over False by simp
        then show ?thesis using that by blast
      qed
      show ?thesis unfolding l r n by simp
    next
      case go: False
      have lt: "int (length ?p) < mc" using go by simp
      show ?thesis
        unfolding chunk_loop_Cons using over go assms(1) Cons.IH [OF lt] by simp
    qed
  qed
qed

lemma chunk_loop_grows:
  "length parts \<le> length (fst (chunk_loop cs mc toks (parts, buf, sz)))"
  using chunk_loop_prefix [of cs mc toks parts buf sz] by auto

lemma chunk_loop_uncapped:
  assumes "mc \<le> mc'"
    and "int (length (fst (chunk_loop cs mc toks (parts, buf, sz)))) < mc"
  shows "chunk_loop cs mc' toks (parts, buf, sz) = chunk_loop cs mc toks (parts, buf, sz)"
  using assms(2)
proof (induction toks arbitrary: parts buf sz)
  case Nil
  then show ?case by simp
next
  case (Cons token rest)
  have g: "int (length parts) < mc"
    using chunk_loop_grows [of parts cs mc "token # rest" buf sz] Cons.prems by linarith
  show ?case
    using Cons.prems g assms(1) unfolding chunk_loop_Cons
    by (auto simp: Cons.IH split: if_splits)
qed

lemma chunk_loop_stopped:
  assumes "int (length parts) < mc"
    and "int (length (fst (chunk_loop cs mc pre (parts, buf, sz)))) \<ge> mc"
  shows "chunk_loop cs mc (pre @ extra) (parts, buf, sz) = chunk_loop cs mc pre (parts, buf, sz)"
  using assms
proof (induction pre arbitrary: parts buf sz)
  case Nil
  then show ?case by simp
next
  case (Cons token rest)
  show ?case
    using Cons.prems unfolding append_Cons chunk_loop_Cons
    by (auto simp: Cons.IH split: if_splits)
qed

lemma chunk_tokens_take:
  assumes "1 \<le> mc" "mc \<le> mc'"
  shows "chunk_tokens toks cs mc = take (nat mc) (chunk_tokens toks cs mc')"
  unfolding chunk_tokens_closing
  using chunk_loop_take [OF assms(2), of "[]" cs toks "[]" 0] assms(1) by simp

lemma chunk_tokens_full:
  assumes "1 \<le> mc" "mc \<le> mc'" "int (length (chunk_tokens toks cs mc')) > mc"
  shows "int (length (chunk_tokens toks cs mc)) = mc"
  unfolding chunk_tokens_take [OF assms(1,2)] using assms by simp

lemma chunk_tokens_stopped:
  assumes "1 \<le> mc" "mc \<le> mc'" "int (length (chunk_tokens pre cs mc')) > mc"
  shows "chunk_tokens (pre @ extra) cs mc = chunk_tokens pre cs mc"
proof -
  have ge: "int (length (fst (chunk_loop cs mc pre ([], [], 0)))) \<ge> mc"
  proof (rule ccontr)
    assume "\<not> int (length (fst (chunk_loop cs mc pre ([], [], 0)))) \<ge> mc"
    then have lt: "int (length (fst (chunk_loop cs mc pre ([], [], 0)))) < mc" by simp
    obtain p b s where st: "chunk_loop cs mc pre ([], [], 0) = (p, b, s)"
      by (metis prod_cases3)
    have u: "chunk_loop cs mc' pre ([], [], 0) = (p, b, s)"
      using chunk_loop_uncapped [OF assms(2) lt] st by simp
    have "int (length (chunk_tokens pre cs mc')) \<le> mc"
      unfolding chunk_tokens_closing u using lt st assms(2) by (simp add: closing_def flush_cases)
    then show False using assms(3) by simp
  qed
  have "chunk_loop cs mc (pre @ extra) ([], [], 0) = chunk_loop cs mc pre ([], [], 0)"
    using chunk_loop_stopped [OF _ ge] assms(1) by simp
  then show ?thesis unfolding chunk_tokens_closing by simp
qed

subsection \<open>Runs of 6,000 characters between full stops\<close>

lemma chunk_scan_run:
  "re_scan chunk_sep pv acc (replicate n 98 @ 46 # rest) =
     (case re_scan chunk_sep (Some 46) [] rest of
        (ms, after) \<Rightarrow> ((acc @ replicate n 98, [46], [(1, [46])]) # ms, after))"
proof -
  have "re_scan chunk_sep pv acc (replicate n 98 @ 46 # rest)
          = re_scan chunk_sep (if replicate n (98::nat) = [] then pv else Some (last (replicate n 98)))
              (acc @ replicate n 98) (46 # rest)"
    by (rule re_scan_no_match) (simp add: chunk_sep_no_match is_stop_mark_def)
  then show ?thesis
    by (simp add: chunk_sep_stop is_stop_mark_def split: prod.splits)
qed

lemma chunk_scan_last:
  "re_scan chunk_sep pv acc (replicate n 98) = ([], acc @ replicate n 98)"
  by (rule re_scan_replicate) (simp add: chunk_sep_no_match is_stop_mark_def)


lemma four_runs_tokens:
  "re_split_group chunk_sep four_runs
     = [replicate 6000 98, [46], replicate 6000 98, [46], replicate 6000 98, [46],
        replicate 6000 98]"
  by (simp add: re_split_group_def four_runs_def chunk_scan_run chunk_scan_last)

lemma four_runs_tail_tokens:
  "re_split_group chunk_sep (four_runs @ ascii ''.Tail'')
     = [replicate 6000 98, [46], replicate 6000 98, [46], replicate 6000 98, [46],
        replicate 6000 98] @ [[46], ascii ''Tail'']"
proof -
  have e: "four_runs @ ascii ''.Tail''
             = replicate 6000 98 @ 46 # replicate 6000 98 @ 46 # replicate 6000 98
                 @ 46 # replicate 6000 98 @ 46 # ascii ''Tail''"
    by (simp add: four_runs_def ascii_def)
  have t: "re_scan chunk_sep (Some 46) [] (ascii ''Tail'') = ([], ascii ''Tail'')"
    by (simp add: ascii_def chunk_sep_no_match is_stop_mark_def)
  show ?thesis
    unfolding e by (simp add: re_split_group_def chunk_scan_run t)
qed

lemma strip_run: "strip (replicate 6000 98) = replicate 6000 98"
  using strip_bees [of 5999] by simp

lemma strip_stop: "strip [46] = [46]"
  by (simp add: strip_def strip_chars_def is_space_def)


lemma four_runs_strip: "strip four_runs = four_runs"
  by (rule strip_id) (simp_all add: four_runs_def is_space_def)

lemma four_runs_tail_strip: "strip (four_runs @ ascii ''.Tail'') = four_runs @ ascii ''.Tail''"
  by (rule strip_id) (simp_all add: four_runs_def is_space_def ascii_def)


lemma four_runs_chunks:
  "chunk_text four_runs 6000 6
     = [replicate 6000 98, [46], replicate 6000 98, [46], replicate 6000 98, [46]]"
  by (simp add: chunk_text_def four_runs_tokens chunk_tokens_def flush_def strip_run strip_stop
      ascii_def Let_def)

lemma four_runs_chunks_uncapped:
  "chunk_tokens [replicate 6000 98, [46], replicate 6000 98, [46], replicate 6000 98, [46],
        replicate 6000 98] 6000 7
     = [replicate 6000 98, [46], replicate 6000 98, [46], replicate 6000 98, [46],
        replicate 6000 98]"
  by (simp add: chunk_tokens_def flush_def strip_run strip_stop ascii_def Let_def)



lemma oops_chunk:
  "summarize_chunk L self (answering oops_body) ch language title lg
     = (Inr (fallback_summary ch), lg @ [chat_request self (prompt_structured L ch language title True)])"
  using summarize_chunk_unstructured [OF oops_call] oops_parse by simp

lemma oops_once:
  "summarize_structured_once L self (answering oops_body) tx language title lg
     = (Inr (empty_result (fallback_summary tx)),
        lg @ [chat_request self (prompt_structured L tx language title False)])"
  using summarize_once_unstructured [OF oops_call] oops_parse by simp



lemma summarize_structured_chunked:
  assumes "length (strip t) > 12000"
  shows "summarize_structured L self ep t title language log
           = (case summarize_chunks L self ep language title 1 (chunk_text (strip t) 6000 6) log of
                (Inl e, log') \<Rightarrow> (Inl e, log')
              | (Inr sums, log') \<Rightarrow>
                  summarize_structured_once L self ep (join [10, 10] sums) language title log')"
proof -
  have "strip t \<noteq> []" using assms by auto
  then show ?thesis using assms by (simp add: summarize_structured_def Let_def)
qed




lemma fallback_run: "fallback_summary (replicate 6000 98) = replicate 1200 98"
  unfolding fallback_summary_def strip_run re_split_def fallback_bees_scan
  by (simp add: strip_run)

lemma fallback_stop: "fallback_summary [46] = [46]"
  by (simp add: fallback_summary_def re_split_def fallback_sep_eval strip_def strip_chars_def
      is_space_def is_stop_mark_def ascii_def)

text \<open>
  C10.  Whenever cutting a text with a cap above six gives more than six chunks, cutting
  it with the cap of six gives the first six of them, exactly six.  The pieces read after
  the sixth chunk is closed are dropped: once the pieces read so far would make more than
  six chunks, whatever follows them changes nothing in the chunks.  So two long transcripts
  that differ only there get the same result from \<open>summarize_structured\<close> and put the same
  requests to the endpoint.
\<close>

theorem chunk_cap_discards:
  "(6 \<le> mc' \<longrightarrow> chunk_text tx 6000 6 = take 6 (chunk_text tx 6000 mc'))
   \<and> (6 \<le> mc' \<and> length (chunk_text tx 6000 mc') > 6 \<longrightarrow> length (chunk_text tx 6000 6) = 6)
   \<and> (6 \<le> mc' \<and> length (chunk_tokens pre 6000 mc') > 6
        \<longrightarrow> chunk_tokens (pre @ extra) 6000 6 = chunk_tokens pre 6000 6)
   \<and> (6 \<le> mc' \<and> length (chunk_tokens pre 6000 mc') > 6
        \<and> length (strip t) > 12000 \<and> length (strip t') > 12000
        \<and> re_split_group chunk_sep (strip t) = pre @ extra
        \<and> re_split_group chunk_sep (strip t') = pre @ extra'
        \<longrightarrow> summarize_structured L self ep t title language log
            = summarize_structured L self ep t' title language log)"
proof -
  have a: "chunk_text tx 6000 6 = take 6 (chunk_text tx 6000 mc')" if "6 \<le> mc'"
    using chunk_tokens_take [of 6 mc' "re_split_group chunk_sep tx" 6000] that
    by (simp add: chunk_text_def)
  have b: "length (chunk_text tx 6000 6) = 6"
    if "6 \<le> mc' \<and> length (chunk_text tx 6000 mc') > 6"
    using chunk_tokens_full [of 6 mc' "re_split_group chunk_sep tx" 6000] that
    by (simp add: chunk_text_def)
  have c: "chunk_tokens (pre @ extra) 6000 6 = chunk_tokens pre 6000 6"
    if "6 \<le> mc' \<and> length (chunk_tokens pre 6000 mc') > 6" for extra
    using chunk_tokens_stopped [of 6 mc' pre 6000 extra] that by simp
  have d: "summarize_structured L self ep t title language log
            = summarize_structured L self ep t' title language log"
    if h: "6 \<le> mc' \<and> length (chunk_tokens pre 6000 mc') > 6
        \<and> length (strip t) > 12000 \<and> length (strip t') > 12000
        \<and> re_split_group chunk_sep (strip t) = pre @ extra
        \<and> re_split_group chunk_sep (strip t') = pre @ extra'"
  proof -
    have p: "6 \<le> mc' \<and> length (chunk_tokens pre 6000 mc') > 6" using h by simp
    have "chunk_text (strip t) 6000 6 = chunk_text (strip t') 6000 6"
      using h c [OF p, of extra] c [OF p, of extra'] by (simp add: chunk_text_def)
    then show ?thesis
      using h summarize_structured_chunked [of t L self ep title language log]
        summarize_structured_chunked [of t' L self ep title language log]
      by simp
  qed
  show ?thesis
    apply (intro conjI impI)
    subgoal by (rule a)
    subgoal by (rule b)
    subgoal by (rule c)
    subgoal by (rule d)
    done
qed

theorem chunk_cap_discards_witness:
  "length (strip four_runs) = 24003
   \<and> length (strip (four_runs @ ascii ''.Tail'')) = 24008
   \<and> chunk_text four_runs 6000 7
       = [replicate 6000 98, [46], replicate 6000 98, [46], replicate 6000 98, [46],
          replicate 6000 98]
   \<and> chunk_text four_runs 6000 6
       = [replicate 6000 98, [46], replicate 6000 98, [46], replicate 6000 98, [46]]
   \<and> chunk_text (four_runs @ ascii ''.Tail'') 6000 6
       = [replicate 6000 98, [46], replicate 6000 98, [46], replicate 6000 98, [46]]
   \<and> summarize_structured demo_lib demo_self (answering oops_body) (four_runs @ ascii ''.Tail'')
         (ascii ''Weekly'') (ascii ''en'') []
       = summarize_structured demo_lib demo_self (answering oops_body) four_runs
           (ascii ''Weekly'') (ascii ''en'') []
   \<and> snd (summarize_structured demo_lib demo_self (answering oops_body)
            (four_runs @ ascii ''.Tail'') (ascii ''Weekly'') (ascii ''en'') [])
       = [chat_request demo_self
            (prompt_structured demo_lib (replicate 6000 98) (ascii ''en'')
               (chunk_title (ascii ''Weekly'') 1) True),
          chat_request demo_self
            (prompt_structured demo_lib [46] (ascii ''en'') (chunk_title (ascii ''Weekly'') 2) True),
          chat_request demo_self
            (prompt_structured demo_lib (replicate 6000 98) (ascii ''en'')
               (chunk_title (ascii ''Weekly'') 3) True),
          chat_request demo_self
            (prompt_structured demo_lib [46] (ascii ''en'') (chunk_title (ascii ''Weekly'') 4) True),
          chat_request demo_self
            (prompt_structured demo_lib (replicate 6000 98) (ascii ''en'')
               (chunk_title (ascii ''Weekly'') 5) True),
          chat_request demo_self
            (prompt_structured demo_lib [46] (ascii ''en'') (chunk_title (ascii ''Weekly'') 6) True),
          chat_request demo_self
            (prompt_structured demo_lib
               (join [10, 10] [replicate 1200 98, [46], replicate 1200 98, [46],
                               replicate 1200 98, [46]])
               (ascii ''en'') (ascii ''Weekly'') False)]"
proof -
  let ?pre = "[replicate 6000 98, [46], replicate 6000 98, [46], replicate 6000 98, [46],
               replicate 6000 (98::nat)]"
  have l1: "length (strip four_runs) = 24003"
    unfolding four_runs_strip by (simp add: four_runs_def)
  have l2: "length (strip (four_runs @ ascii ''.Tail'')) = 24008"
    unfolding four_runs_tail_strip by (simp add: four_runs_def ascii_def)
  have g1: "length (strip four_runs) > 12000" unfolding l1 by simp
  have g2: "length (strip (four_runs @ ascii ''.Tail'')) > 12000" unfolding l2 by simp
  have u: "chunk_text four_runs 6000 7 = ?pre"
    unfolding chunk_text_def four_runs_tokens by (rule four_runs_chunks_uncapped)
  have m: "(6::int) \<le> 7" by simp
  have p: "length (chunk_tokens ?pre 6000 7) > 6"
    unfolding four_runs_chunks_uncapped by simp
  have t1: "re_split_group chunk_sep (strip four_runs) = ?pre @ []"
    unfolding four_runs_strip four_runs_tokens by simp
  have t2: "re_split_group chunk_sep (strip (four_runs @ ascii ''.Tail''))
              = ?pre @ [[46], ascii ''Tail'']"
    unfolding four_runs_tail_strip by (rule four_runs_tail_tokens)
  note th = chunk_cap_discards [where mc' = 7 and pre = ?pre and extra = "[[46], ascii ''Tail'']"
      and extra' = "[]" and t = "four_runs @ ascii ''.Tail''" and t' = four_runs
      and L = demo_lib and self = demo_self and ep = "answering oops_body"
      and title = "ascii ''Weekly''" and language = "ascii ''en''" and log = "[]"]
  have c: "chunk_text (four_runs @ ascii ''.Tail'') 6000 6
       = [replicate 6000 98, [46], replicate 6000 98, [46], replicate 6000 98, [46]]"
  proof -
    have "chunk_tokens (?pre @ [[46], ascii ''Tail'']) 6000 6 = chunk_tokens ?pre 6000 6"
      by (rule th [THEN conjunct2, THEN conjunct2, THEN conjunct1, rule_format])
        (intro conjI, rule m, rule p)
    then show ?thesis
      using four_runs_chunks
      unfolding chunk_text_def four_runs_tail_tokens four_runs_tokens by simp
  qed
  have e: "summarize_structured demo_lib demo_self (answering oops_body) (four_runs @ ascii ''.Tail'')
         (ascii ''Weekly'') (ascii ''en'') []
       = summarize_structured demo_lib demo_self (answering oops_body) four_runs
           (ascii ''Weekly'') (ascii ''en'') []"
    by (rule th [THEN conjunct2, THEN conjunct2, THEN conjunct2, rule_format])
      (intro conjI, rule m, rule p, rule g2, rule g1, rule t2, rule t1)
  have cs: "summarize_chunks demo_lib demo_self (answering oops_body) (ascii ''en'') (ascii ''Weekly'')
             1 (chunk_text (strip four_runs) 6000 6) []
           = (Inr [replicate 1200 98, [46], replicate 1200 98, [46], replicate 1200 98, [46]],
              [chat_request demo_self
            (prompt_structured demo_lib (replicate 6000 98) (ascii ''en'')
               (chunk_title (ascii ''Weekly'') 1) True),
          chat_request demo_self
            (prompt_structured demo_lib [46] (ascii ''en'') (chunk_title (ascii ''Weekly'') 2) True),
          chat_request demo_self
            (prompt_structured demo_lib (replicate 6000 98) (ascii ''en'')
               (chunk_title (ascii ''Weekly'') 3) True),
          chat_request demo_self
            (prompt_structured demo_lib [46] (ascii ''en'') (chunk_title (ascii ''Weekly'') 4) True),
          chat_request demo_self
            (prompt_structured demo_lib (replicate 6000 98) (ascii ''en'')
               (chunk_title (ascii ''Weekly'') 5) True),
          chat_request demo_self
            (prompt_structured demo_lib [46] (ascii ''en'') (chunk_title (ascii ''Weekly'') 6) True)])"
    unfolding four_runs_strip four_runs_chunks
    by (simp add: oops_chunk fallback_run fallback_stop numeral_2_eq_2 [symmetric])
  have s: "snd (summarize_structured demo_lib demo_self (answering oops_body) four_runs
             (ascii ''Weekly'') (ascii ''en'') [])
       = [chat_request demo_self
            (prompt_structured demo_lib (replicate 6000 98) (ascii ''en'')
               (chunk_title (ascii ''Weekly'') 1) True),
          chat_request demo_self
            (prompt_structured demo_lib [46] (ascii ''en'') (chunk_title (ascii ''Weekly'') 2) True),
          chat_request demo_self
            (prompt_structured demo_lib (replicate 6000 98) (ascii ''en'')
               (chunk_title (ascii ''Weekly'') 3) True),
          chat_request demo_self
            (prompt_structured demo_lib [46] (ascii ''en'') (chunk_title (ascii ''Weekly'') 4) True),
          chat_request demo_self
            (prompt_structured demo_lib (replicate 6000 98) (ascii ''en'')
               (chunk_title (ascii ''Weekly'') 5) True),
          chat_request demo_self
            (prompt_structured demo_lib [46] (ascii ''en'') (chunk_title (ascii ''Weekly'') 6) True),
          chat_request demo_self
            (prompt_structured demo_lib
               (join [10, 10] [replicate 1200 98, [46], replicate 1200 98, [46],
                               replicate 1200 98, [46]])
               (ascii ''en'') (ascii ''Weekly'') False)]"
    unfolding summarize_structured_long [OF g1 cs] oops_once by simp
  show ?thesis
    using l1 l2 u four_runs_chunks c e s [folded e] by (intro conjI)
qed

end
